theory Spec2Isabelle
  imports Complex_Main "HOL-Library.Multiset"
begin

section \<open>Data model\<close>

text \<open>
  The analyzer works on Python floats, in two roles.

  Times (the keys of a waveform, the target times, the minimum durations, the regions)
  are only compared, ordered and subtracted. A finite float is modelled by the real
  number it denotes: comparisons, \<open>min\<close> and \<open>max\<close> of finite floats are exact. The
  subtraction of two times is the float subtraction, which rounds; it is not read as the
  subtraction of the reals but taken as a parameter \<open>fsub\<close> of every function that
  subtracts times. Its result is a time again: the times are taken to be finite floats
  whose differences do not overflow, and \<open>nan\<close> is not a time.

  Sample values (currents and voltages) go through sums, quotients, products and
  comparisons with constants, all of them float operations that round, overflow and know
  \<open>nan\<close>. They are modelled by an arbitrary type \<open>'v\<close> together with the operations the
  source applies to them, collected in a record; nothing is assumed of the operations
  unless a statement says so.

  A region is the tuple \<open>(start, end)\<close>. A waveform is a Python dict from time to
  value; it is modelled as an association list in the dict's iteration order (the keys of
  a dict are distinct; no statement below depends on it). A segment is a dict of the same
  kind.
\<close>

type_synonym region = "real \<times> real"

type_synonym 'v waveform = "(real \<times> 'v) list"

definition keys :: "'v waveform \<Rightarrow> real list" where
  "keys w = map fst w"

definition vals :: "'v waveform \<Rightarrow> 'v list" where
  "vals w = map snd w"

section \<open>Float arithmetic on sample values\<close>

text \<open>
  The operations of the source on sample values: the value of a numeric literal
  (\<open>4.21\<close>, \<open>1000\<close>), the conversion of \<open>len(...)\<close> in a division, the built-in
  \<open>sum\<close>, \<open>+\<close>, \<open>*\<close>, \<open>/\<close>, \<open>abs\<close>, \<open>math.sqrt\<close>, and the comparisons \<open><\<close>,
  \<open><=\<close> and \<open>>\<close>.
\<close>

record 'v arith =
  f_lit :: "real \<Rightarrow> 'v"
  f_len :: "nat \<Rightarrow> 'v"
  f_sum :: "'v list \<Rightarrow> 'v"
  f_add :: "'v \<Rightarrow> 'v \<Rightarrow> 'v"
  f_mul :: "'v \<Rightarrow> 'v \<Rightarrow> 'v"
  f_div :: "'v \<Rightarrow> 'v \<Rightarrow> 'v"
  f_abs :: "'v \<Rightarrow> 'v"
  f_sqrt :: "'v \<Rightarrow> 'v"
  f_lt :: "'v \<Rightarrow> 'v \<Rightarrow> bool"
  f_le :: "'v \<Rightarrow> 'v \<Rightarrow> bool"
  f_gt :: "'v \<Rightarrow> 'v \<Rightarrow> bool"

text \<open>
  The built-in \<open>max\<close> of a non-empty sequence keeps the first item and replaces it by a
  later item that compares greater. Every use below is behind the test that the sequence
  is not empty (on the empty sequence \<open>max\<close> raises).
\<close>

fun py_max :: "'v arith \<Rightarrow> 'v list \<Rightarrow> 'v" where
  "py_max ops (x # xs) = fold (\<lambda>item m. if f_gt ops item m then item else m) xs x"

text \<open>
  Properties of float comparison that some statements assume: \<open><\<close> implies \<open><=\<close> and
  excludes the converse \<open><=\<close>, \<open><=\<close> is transitive, literals keep their order, and an
  absolute value is not below zero. IEEE floats have them, \<open>nan\<close> and the infinities
  included.
\<close>

definition float_laws :: "'v arith \<Rightarrow> bool" where
  "float_laws ops =
     ((\<forall>x y. f_lt ops x y \<longrightarrow> f_le ops x y) \<and>
      (\<forall>x y. f_lt ops x y \<longrightarrow> \<not> f_le ops y x) \<and>
      (\<forall>x y z. f_le ops x y \<longrightarrow> f_le ops y z \<longrightarrow> f_le ops x z) \<and>
      (\<forall>a b. a \<le> b \<longrightarrow> f_le ops (f_lit ops a) (f_lit ops b)) \<and>
      (\<forall>x. \<not> f_lt ops (f_abs ops x) (f_lit ops 0)))"

text \<open>
  Float subtraction of times rounds the exact difference to the nearest float, so it
  grows with its first argument and falls with its second.
\<close>

definition sub_mono :: "(real \<Rightarrow> real \<Rightarrow> real) \<Rightarrow> bool" where
  "sub_mono fsub = (\<forall>a b c d. a \<le> c \<longrightarrow> d \<le> b \<longrightarrow> fsub a b \<le> fsub c d)"

text \<open>
  The arithmetic of the reals is one instance of the operations. It gives what the float
  operations give wherever they round nothing that decides the result; the concrete
  evaluations below use it at such inputs (sample values and times that are dyadic
  fractions, far from every threshold).
\<close>

definition real_arith :: "real arith" where
  "real_arith =
     \<lparr> f_lit = (\<lambda>x. x), f_len = real, f_sum = sum_list, f_add = (+), f_mul = (*),
       f_div = (/), f_abs = abs, f_sqrt = sqrt, f_lt = (<), f_le = (\<le>), f_gt = (>) \<rparr>"

definition real_sub :: "real \<Rightarrow> real \<Rightarrow> real" where
  "real_sub a b = a - b"

section \<open>utils/waveform.py\<close>

subsection \<open>unionize_regions\<close>

definition unionize_regions :: "region \<Rightarrow> region \<Rightarrow> region option" where
  "unionize_regions region_1 region_2 =
     (if snd region_1 < fst region_2 \<or> snd region_2 < fst region_1 then None
      else Some (min (fst region_1) (fst region_2), max (snd region_1) (snd region_2)))"

text \<open>The points of the real line a region covers, and a region with \<open>start \<le> end\<close>.\<close>

definition covers :: "region \<Rightarrow> real set" where
  "covers r = {x. fst r \<le> x \<and> x \<le> snd r}"

definition valid_region :: "region \<Rightarrow> bool" where
  "valid_region r = (fst r \<le> snd r)"

subsection \<open>merge_regions\<close>

text \<open>
  \<open>itertools.combinations(merged_regions, 2)\<close> yields the pairs of the list in
  lexicographic order of their positions; the \<open>for\<close> loop breaks at the first pair whose
  union is not \<open>None\<close>. \<open>first_partner r ss\<close> scans the pairs that begin with \<open>r\<close>.
\<close>

fun first_partner :: "region \<Rightarrow> region list \<Rightarrow> (region \<times> region) option" where
  "first_partner r [] = None"
| "first_partner r (s # ss) =
     (case unionize_regions r s of
        Some union_region \<Rightarrow> Some (s, union_region)
      | None \<Rightarrow> first_partner r ss)"

fun first_mergeable_pair :: "region list \<Rightarrow> (region \<times> region \<times> region) option" where
  "first_mergeable_pair [] = None"
| "first_mergeable_pair (r # rs) =
     (case first_partner r rs of
        Some (s, union_region) \<Rightarrow> Some (r, s, union_region)
      | None \<Rightarrow> first_mergeable_pair rs)"

lemma first_partner_Some:
  "first_partner r ss = Some (s, u) \<Longrightarrow> s \<in> set ss \<and> unionize_regions r s = Some u"
  by (induction ss) (auto split: option.splits)

lemma first_partner_None:
  "(first_partner r ss = None) = (\<forall>s\<in>set ss. unionize_regions r s = None)"
  by (induction ss) (auto split: option.splits)

lemma first_mergeable_pair_Some:
  "first_mergeable_pair rs = Some (r1, r2, u) \<Longrightarrow>
     r1 \<in> set rs \<and> r2 \<in> set (remove1 r1 rs) \<and> unionize_regions r1 r2 = Some u"
proof (induction rs)
  case Nil
  then show ?case by simp
next
  case (Cons r rs)
  show ?case
  proof (cases "first_partner r rs")
    case None
    with Cons.prems have "first_mergeable_pair rs = Some (r1, r2, u)" by simp
    from Cons.IH [OF this] show ?thesis
      using set_remove1_subset [of r1 rs] by auto
  next
    case (Some p)
    obtain s v where p: "p = (s, v)" by (cases p)
    with Some Cons.prems have "r1 = r" "r2 = s" "u = v" by simp_all
    with Some p first_partner_Some [of r rs s v] show ?thesis by simp
  qed
qed

lemma first_mergeable_pair_None:
  "(first_mergeable_pair rs = None) = sorted_wrt (\<lambda>a b. unionize_regions a b = None) rs"
proof (induction rs)
  case Nil
  then show ?case by simp
next
  case (Cons r rs)
  show ?case
  proof (cases "first_partner r rs")
    case None
    with Cons.IH show ?thesis by (simp add: first_partner_None [symmetric])
  next
    case (Some p)
    then have "first_partner r rs \<noteq> None" by simp
    then have n: "\<not> (\<forall>s\<in>set rs. unionize_regions r s = None)"
      by (simp add: first_partner_None)
    obtain s v where "p = (s, v)" by (cases p)
    with Some have "first_mergeable_pair (r # rs) \<noteq> None" by simp
    moreover from n have "\<not> sorted_wrt (\<lambda>a b. unionize_regions a b = None) (r # rs)"
      by simp
    ultimately show ?thesis by blast
  qed
qed

lemma length_after_merge:
  assumes "first_mergeable_pair rs = Some (r1, r2, u)"
  shows "length (remove1 r2 (remove1 r1 rs) @ [u]) < length rs"
proof -
  from first_mergeable_pair_Some [OF assms]
  have a: "r1 \<in> set rs" and b: "r2 \<in> set (remove1 r1 rs)" by simp_all
  from a have "length rs > 0" by (cases rs) auto
  moreover from b have "length (remove1 r1 rs) > 0" by (cases "remove1 r1 rs") auto
  ultimately show ?thesis using a b by (simp add: length_remove1)
qed

text \<open>
  The \<open>while\<close> loop of \<open>merge_regions\<close>: \<open>list.remove\<close> deletes the first element equal
  to its argument, \<open>append\<close> puts the union at the end.
\<close>

function merge_loop :: "region list \<Rightarrow> region list" where
  "merge_loop merged_regions =
     (case first_mergeable_pair merged_regions of
        None \<Rightarrow> merged_regions
      | Some (region_1, region_2, union_region) \<Rightarrow>
          merge_loop (remove1 region_2 (remove1 region_1 merged_regions) @ [union_region]))"
  by pat_completeness auto
termination
  by (relation "measure length") (auto dest: length_after_merge)

definition merge_regions :: "region list \<Rightarrow> region list" where
  "merge_regions regions = merge_loop regions"


declare merge_loop.simps [simp del]

text \<open>
  What the result is measured against: the set of points a list of regions covers, lists
  of regions with \<open>start \<le> end\<close>, and lists in which no two entries can be unionized
  (they are pairwise disjoint and not adjacent).
\<close>

definition covered :: "region list \<Rightarrow> real set" where
  "covered rs = (\<Union>r\<in>set rs. covers r)"

definition valid_regions :: "region list \<Rightarrow> bool" where
  "valid_regions rs = list_all valid_region rs"

definition separated :: "region list \<Rightarrow> bool" where
  "separated rs = sorted_wrt (\<lambda>a b. unionize_regions a b = None) rs"

subsection \<open>get_segment_from_waveform\<close>

text \<open>
  The \<open>while\<close> loop of \<open>get_segment_from_waveform\<close>, inside its \<open>try\<close>. The loop need
  not end, so it is a partial function in the option monad: the outer \<open>None\<close> is "does
  not return". A returned value is \<open>None\<close> (the \<open>except ValueError\<close> branch, taken when
  \<open>max()\<close> or \<open>min()\<close> meets an empty sequence) or the segment. The loop test subtracts
  two times: \<open>fsub\<close>. A key newly stored in the segment dict goes to the end of its
  iteration order; \<open>waveform[t]\<close> is read at a key \<open>t\<close> taken from the waveform itself.
\<close>

partial_function (option) extend_segment ::
    "(real \<Rightarrow> real \<Rightarrow> real) \<Rightarrow> 'v waveform \<Rightarrow> real \<Rightarrow> string \<Rightarrow> 'v waveform
      \<Rightarrow> 'v waveform option option" where
  "extend_segment fsub waveform min_duration direction_to_extend_beyond segment =
     (if segment = [] then Some None
      else if fsub (Max (set (keys segment))) (Min (set (keys segment))) < min_duration then
        (if direction_to_extend_beyond = ''start'' then
           (if filter (\<lambda>p. fst p < Min (set (keys segment))) waveform = [] then Some None
            else
              let next_earlier_time =
                    Max (set (keys (filter (\<lambda>p. fst p < Min (set (keys segment))) waveform)))
              in extend_segment fsub waveform min_duration direction_to_extend_beyond
                   (segment @ [(next_earlier_time, the (map_of waveform next_earlier_time))]))
         else if direction_to_extend_beyond = ''end'' then
           (if filter (\<lambda>p. fst p > Max (set (keys segment))) waveform = [] then Some None
            else
              let next_later_time =
                    Min (set (keys (filter (\<lambda>p. fst p > Max (set (keys segment))) waveform)))
              in extend_segment fsub waveform min_duration direction_to_extend_beyond
                   (segment @ [(next_later_time, the (map_of waveform next_later_time))]))
         else extend_segment fsub waveform min_duration direction_to_extend_beyond segment)
      else Some (Some segment))"

definition window :: "'v waveform \<Rightarrow> real \<Rightarrow> real \<Rightarrow> 'v waveform" where
  "window waveform start_time end_time =
     filter (\<lambda>p. start_time \<le> fst p \<and> fst p \<le> end_time) waveform"

definition get_segment_from_waveform ::
    "(real \<Rightarrow> real \<Rightarrow> real) \<Rightarrow> 'v waveform option \<Rightarrow> real \<Rightarrow> real \<Rightarrow> real \<Rightarrow> string
      \<Rightarrow> 'v waveform option option" where
  "get_segment_from_waveform fsub waveform start_time end_time min_duration
       direction_to_extend_beyond =
     (case waveform of
        None \<Rightarrow> Some None
      | Some w \<Rightarrow>
          extend_segment fsub w min_duration direction_to_extend_beyond
            (window w start_time end_time))"

section \<open>analysis/analyzer_support.py\<close>

text \<open>
  The two enumerations. Python does not check the annotated parameter types, so a caller
  can pass any object where an \<open>Interpretation\<close> or a \<open>StandardVersion\<close> is expected;
  the constructors \<open>OTHER_INTERPRETATION\<close> and \<open>OTHER_STANDARD_VERSION\<close> stand for
  every value that is not a member of the enumeration.
\<close>

datatype Interpretation = STRICT | TYPOS | REASONABLE | SPECULATIVE | OTHER_INTERPRETATION

datatype StandardVersion = UL1400_1_ISSUE_1 | OTHER_STANDARD_VERSION

definition DEFAULT_INTERPRETATION :: Interpretation where
  "DEFAULT_INTERPRETATION = STRICT"

definition LATEST_STANDARD_VERSION :: StandardVersion where
  "LATEST_STANDARD_VERSION = UL1400_1_ISSUE_1"

definition DEFAULT_STANDARD_VERSION :: StandardVersion where
  "DEFAULT_STANDARD_VERSION = LATEST_STANDARD_VERSION"

section \<open>Exceptions\<close>

text \<open>
  Every \<open>raise\<close> of the source and every exception of a built-in the source relies on is a
  constructor. The first six are the \<open>ValueError\<close>s the analyzer raises itself, named
  after their messages; \<open>EmptySequence\<close> is the \<open>ValueError\<close> of \<open>max()\<close> and \<open>min()\<close>
  on an empty sequence; \<open>AttributeError\<close> is \<open>None.values()\<close>; \<open>TypeError\<close> is an
  unsupported comparison; \<open>InvalidPoolSize\<close> is the \<open>ValueError\<close> of
  \<open>multiprocessing.Pool\<close> for fewer than one process.
\<close>

datatype error =
    UnsupportedStandardVersion
  | UnsupportedInterpretation
  | InvalidEnvironment
  | InvalidMeasurementType
  | NegativeMean
  | AboveCeiling
  | EmptySequence
  | AttributeError
  | TypeError
  | InvalidPoolSize

text \<open>
  The specification groups the analyzer's own \<open>ValueError\<close>s in two kinds: configuration
  errors and undefined-domain errors.
\<close>

fun is_ConfigurationError :: "error \<Rightarrow> bool" where
  "is_ConfigurationError UnsupportedStandardVersion = True"
| "is_ConfigurationError UnsupportedInterpretation = True"
| "is_ConfigurationError InvalidEnvironment = True"
| "is_ConfigurationError InvalidMeasurementType = True"
| "is_ConfigurationError _ = False"

fun is_UndefinedDomainError :: "error \<Rightarrow> bool" where
  "is_UndefinedDomainError NegativeMean = True"
| "is_UndefinedDomainError AboveCeiling = True"
| "is_UndefinedDomainError _ = False"

section \<open>analysis/letgo_analyzer.py: the threshold evaluator\<close>

text \<open>
  The result \<open>bool | None\<close> is \<^typ>\<open>bool option\<close>: \<open>Some True\<close> is the verdict Below,
  \<open>Some False\<close> is AtOrAbove, \<open>None\<close> is Indeterminate. The argument
  \<open>segment_values\<close> is \<open>None\<close> or a sequence of sample values.
\<close>

definition is_current_below_letgo ::
    "'v arith \<Rightarrow> 'v list option \<Rightarrow> Interpretation \<Rightarrow> StandardVersion
      \<Rightarrow> error + bool option" where
  "is_current_below_letgo ops segment_values interpretation standard_version =
     (case segment_values of
        None \<Rightarrow> Inr None
      | Some values \<Rightarrow>
          if standard_version \<noteq> UL1400_1_ISSUE_1 then Inl UnsupportedStandardVersion
          else if interpretation \<notin> set [STRICT, TYPOS, REASONABLE, SPECULATIVE]
            then Inl UnsupportedInterpretation
          else if values = [] then Inl EmptySequence
          else
            let a_to_ma_scalar = f_lit ops 1000;
                peak_ma0 = f_mul ops (py_max ops values) a_to_ma_scalar;
                mean_ma0 = f_mul ops (f_div ops (f_sum ops values)
                                        (f_len ops (length values))) a_to_ma_scalar;
                peak_ma = (if interpretation \<in> set [REASONABLE, SPECULATIVE]
                           then f_mul ops (py_max ops (map (f_abs ops) values)) a_to_ma_scalar
                           else peak_ma0);
                mean_ma = (if interpretation \<in> set [REASONABLE, SPECULATIVE]
                           then f_abs ops mean_ma0 else mean_ma0)
            in if f_lt ops mean_ma (f_lit ops 0) then Inl NegativeMean
               else if f_le ops mean_ma (f_lit ops 4.21)
                 then Inr (Some (f_le ops peak_ma
                                  (f_mul ops (f_lit ops 5) (f_sqrt ops (f_lit ops 2)))))
               else if f_le ops mean_ma (f_lit ops 30) then
                 (if interpretation = STRICT
                  then Inr (Some (f_le ops peak_ma
                         (f_add ops (f_lit ops 33.3) (f_mul ops (f_lit ops 0.89) mean_ma))))
                  else Inr (Some (f_le ops peak_ma
                         (f_add ops (f_lit ops 3.33) (f_mul ops (f_lit ops 0.89) mean_ma)))))
               else if interpretation \<in> set [STRICT, TYPOS] then Inl AboveCeiling
               else Inr (Some False))"

definition is_voltage_below_letgo ::
    "'v arith \<Rightarrow> 'v list option \<Rightarrow> string option \<Rightarrow> Interpretation \<Rightarrow> StandardVersion
      \<Rightarrow> error + bool option" where
  "is_voltage_below_letgo ops segment_values env_conditions interpretation standard_version =
     (case segment_values of
        None \<Rightarrow> Inr None
      | Some values \<Rightarrow>
          if standard_version \<noteq> UL1400_1_ISSUE_1 then Inl UnsupportedStandardVersion
          else if interpretation \<notin> set [STRICT, TYPOS, REASONABLE, SPECULATIVE]
            then Inl UnsupportedInterpretation
          else if env_conditions \<notin> set [Some ''wet'', Some ''dry''] then Inl InvalidEnvironment
          else if values = [] then Inl EmptySequence
          else
            let peak0 = py_max ops values;
                mean0 = f_div ops (f_sum ops values) (f_len ops (length values));
                peak = (if interpretation \<in> set [REASONABLE, SPECULATIVE]
                        then py_max ops (map (f_abs ops) values) else peak0);
                mean = (if interpretation \<in> set [REASONABLE, SPECULATIVE]
                        then f_abs ops mean0 else mean0)
            in if f_lt ops mean (f_lit ops 0) then Inl NegativeMean
               else if env_conditions = Some ''wet'' then
                 (if f_le ops mean (f_lit ops 10.4)
                    then Inr (Some (f_le ops peak (f_lit ops 21.2)))
                  else if f_le ops mean (f_lit ops 30)
                    then Inr (Some (f_le ops peak
                           (f_add ops (f_lit ops 16.5) (f_mul ops (f_lit ops 0.45) mean))))
                  else if interpretation \<in> set [STRICT, TYPOS] then Inl AboveCeiling
                  else Inr (Some False))
               else
                 (if f_le ops mean (f_lit ops 20.9)
                    then Inr (Some (f_le ops peak (f_lit ops 42.4)))
                  else if f_le ops mean (f_lit ops 60)
                    then Inr (Some (f_le ops peak
                           (f_add ops (f_lit ops 33) (f_mul ops (f_lit ops 0.45) mean))))
                  else if interpretation \<in> set [STRICT, TYPOS] then Inl AboveCeiling
                  else Inr (Some False)))"

definition is_below_letgo ::
    "'v arith \<Rightarrow> string \<Rightarrow> 'v list option \<Rightarrow> string option \<Rightarrow> Interpretation
      \<Rightarrow> StandardVersion \<Rightarrow> error + bool option" where
  "is_below_letgo ops measurement_type segment_values env_conditions interpretation
       standard_version =
     (if measurement_type = ''current''
        then is_current_below_letgo ops segment_values interpretation standard_version
      else if measurement_type = ''voltage''
        then is_voltage_below_letgo ops segment_values env_conditions interpretation
               standard_version
      else Inl InvalidMeasurementType)"

text \<open>
  The quantities the threshold formulas are stated in, as the evaluators compute them:
  the peak and the mean of the values at an interpretation level (magnitudes from
  \<open>REASONABLE\<close> upward), in milliamperes for current and in volts for voltage, and the
  limit of the current formula for a mean of at most 30 mA.
\<close>

definition peak_of :: "'v arith \<Rightarrow> Interpretation \<Rightarrow> 'v list \<Rightarrow> 'v" where
  "peak_of ops interpretation values =
     (if interpretation = REASONABLE \<or> interpretation = SPECULATIVE
      then py_max ops (map (f_abs ops) values) else py_max ops values)"

definition peak_mA :: "'v arith \<Rightarrow> Interpretation \<Rightarrow> 'v list \<Rightarrow> 'v" where
  "peak_mA ops interpretation values =
     f_mul ops (peak_of ops interpretation values) (f_lit ops 1000)"

definition average :: "'v arith \<Rightarrow> 'v list \<Rightarrow> 'v" where
  "average ops values = f_div ops (f_sum ops values) (f_len ops (length values))"

definition mean_mA :: "'v arith \<Rightarrow> Interpretation \<Rightarrow> 'v list \<Rightarrow> 'v" where
  "mean_mA ops interpretation values =
     (if interpretation = REASONABLE \<or> interpretation = SPECULATIVE
      then f_abs ops (f_mul ops (average ops values) (f_lit ops 1000))
      else f_mul ops (average ops values) (f_lit ops 1000))"

definition mean_of :: "'v arith \<Rightarrow> Interpretation \<Rightarrow> 'v list \<Rightarrow> 'v" where
  "mean_of ops interpretation values =
     (if interpretation = REASONABLE \<or> interpretation = SPECULATIVE
      then f_abs ops (average ops values) else average ops values)"

definition current_limit :: "'v arith \<Rightarrow> Interpretation \<Rightarrow> 'v \<Rightarrow> 'v" where
  "current_limit ops interpretation mean =
     (if f_le ops mean (f_lit ops 4.21)
        then f_mul ops (f_lit ops 5) (f_sqrt ops (f_lit ops 2))
      else if interpretation = STRICT
        then f_add ops (f_lit ops 33.3) (f_mul ops (f_lit ops 0.89) mean)
      else f_add ops (f_lit ops 3.33) (f_mul ops (f_lit ops 0.89) mean))"

definition supported :: "Interpretation \<Rightarrow> bool" where
  "supported interpretation = (interpretation \<noteq> OTHER_INTERPRETATION)"

section \<open>analysis/letgo_analyzer.py: the window search\<close>

text \<open>
  \<open>_analyze_segment\<close> (the leading underscore is dropped). \<open>segment.values()\<close> on the
  \<open>None\<close> that \<open>get_segment_from_waveform\<close> may return raises \<open>AttributeError\<close>. The
  \<open>if\<close> takes the verdict \<open>True\<close> only. The progress counter has no part in the result.
\<close>

definition analyze_segment ::
    "'v arith \<Rightarrow> (real \<Rightarrow> real \<Rightarrow> real) \<Rightarrow> string \<Rightarrow> 'v waveform option \<Rightarrow> real \<Rightarrow> real
      \<Rightarrow> real \<Rightarrow> string option \<Rightarrow> Interpretation \<Rightarrow> StandardVersion
      \<Rightarrow> (error + region option) option" where
  "analyze_segment ops fsub measurement_type waveform target_start_time target_end_time
       min_window_duration env_conditions interpretation standard_version =
     (case get_segment_from_waveform fsub waveform target_start_time target_end_time
             min_window_duration ''start'' of
        None \<Rightarrow> None
      | Some None \<Rightarrow> Some (Inl AttributeError)
      | Some (Some segment) \<Rightarrow>
          (case is_below_letgo ops measurement_type (Some (vals segment)) env_conditions
                  interpretation standard_version of
             Inl e \<Rightarrow> Some (Inl e)
           | Inr verdict \<Rightarrow>
               Some (Inr (if verdict = Some True
                          then Some (Min (set (keys segment)), Max (set (keys segment)))
                          else None))))"

text \<open>
  The argument \<open>num_cores\<close>: \<open>None\<close>, an \<open>int\<close>, or a string (the command line passes
  the option on as it was typed). \<open>os.cpu_count()\<close> is an \<open>int\<close> or \<open>None\<close> and is a
  parameter. \<open>min(num_cores, os.cpu_count())\<close> raises \<open>TypeError\<close> when it has to
  compare \<open>None\<close> or a string with an \<open>int\<close>.
\<close>

datatype cores = NoCores | IntCores int | StrCores string

definition num_processes :: "cores \<Rightarrow> int option \<Rightarrow> error + int" where
  "num_processes num_cores cpu_count =
     (case cpu_count of
        None \<Rightarrow> Inl TypeError
      | Some c \<Rightarrow>
          (case num_cores of
             NoCores \<Rightarrow> Inr c
           | IntCores n \<Rightarrow> Inr (min n c)
           | StrCores s \<Rightarrow> Inl TypeError))"

text \<open>The value of the local variable \<open>min_start_time\<close> of both searches.\<close>

definition floor_time :: "'v waveform \<Rightarrow> real option \<Rightarrow> real" where
  "floor_time waveform start_time =
     (case start_time of Some s \<Rightarrow> s | None \<Rightarrow> Min (set (keys waveform)))"

definition target_times ::
    "(real \<Rightarrow> real \<Rightarrow> real) \<Rightarrow> 'v waveform \<Rightarrow> real option \<Rightarrow> real \<Rightarrow> (real \<times> real) list" where
  "target_times fsub waveform start_time min_window_duration =
     map (\<lambda>t. (fsub t min_window_duration, t))
       (filter (\<lambda>t. fsub t min_window_duration \<ge> floor_time waveform start_time)
          (keys waveform))"

definition passing_regions :: "(error + region option) list \<Rightarrow> region list" where
  "passing_regions results =
     (if list_ex isl results then []
      else concat (map (\<lambda>r. case r of Inr (Some region) \<Rightarrow> [region] | _ \<Rightarrow> []) results))"

text \<open>
  One pass of \<open>find_time_regions_below_letgo\<close> over a supplied waveform. \<open>min()\<close> of the
  keys of an empty waveform raises. \<open>multiprocessing.Pool\<close> raises for fewer than one
  process. The pool evaluates \<open>_analyze_segment\<close> at every target window;
  \<open>starmap_async\<close> gives the results in the order of the arguments, and is not
  successful as soon as one evaluation raised: then the message is printed and the pass
  contributes no region.
\<close>

definition analyze_waveform ::
    "'v arith \<Rightarrow> (real \<Rightarrow> real \<Rightarrow> real) \<Rightarrow> string \<Rightarrow> 'v waveform \<Rightarrow> string option
      \<Rightarrow> real option \<Rightarrow> real \<Rightarrow> int \<Rightarrow> Interpretation \<Rightarrow> StandardVersion
      \<Rightarrow> (error + region list) option" where
  "analyze_waveform ops fsub measurement_type waveform env_conditions start_time
       min_window_duration processes interpretation standard_version =
     (if start_time = None \<and> waveform = [] then Some (Inl EmptySequence)
      else if processes < 1 then Some (Inl InvalidPoolSize)
      else
        case those (map (\<lambda>t. analyze_segment ops fsub measurement_type (Some waveform)
                               (fst t) (snd t) min_window_duration env_conditions
                               interpretation standard_version)
                     (target_times fsub waveform start_time min_window_duration)) of
          None \<Rightarrow> None
        | Some results \<Rightarrow> Some (Inr (passing_regions results)))"

definition find_time_regions_below_letgo ::
    "'v arith \<Rightarrow> (real \<Rightarrow> real \<Rightarrow> real) \<Rightarrow> 'v waveform option \<Rightarrow> 'v waveform option
      \<Rightarrow> string option \<Rightarrow> real option \<Rightarrow> real \<Rightarrow> cores \<Rightarrow> int option \<Rightarrow> Interpretation
      \<Rightarrow> StandardVersion \<Rightarrow> (error + region list) option" where
  "find_time_regions_below_letgo ops fsub current_waveform voltage_waveform env_conditions
       start_time min_window_duration num_cores cpu_count interpretation standard_version =
     (case num_processes num_cores cpu_count of
        Inl e \<Rightarrow> Some (Inl e)
      | Inr processes \<Rightarrow>
          (case (case current_waveform of
                   None \<Rightarrow> Some (Inr [])
                 | Some w \<Rightarrow> analyze_waveform ops fsub ''current'' w env_conditions
                               start_time min_window_duration processes interpretation
                               standard_version) of
             None \<Rightarrow> None
           | Some (Inl e) \<Rightarrow> Some (Inl e)
           | Some (Inr current_regions) \<Rightarrow>
               (case (case voltage_waveform of
                        None \<Rightarrow> Some (Inr [])
                      | Some w \<Rightarrow> analyze_waveform ops fsub ''voltage'' w env_conditions
                                    start_time min_window_duration processes
                                    interpretation standard_version) of
                  None \<Rightarrow> None
                | Some (Inl e) \<Rightarrow> Some (Inl e)
                | Some (Inr voltage_regions) \<Rightarrow>
                    Some (Inr (merge_regions (current_regions @ voltage_regions))))))"

section \<open>let_go.py: the serial search\<close>




lemma length_filter_strict:
  assumes "\<And>x. x \<in> set xs \<Longrightarrow> P x \<Longrightarrow> Q x" and "\<exists>x\<in>set xs. Q x \<and> \<not> P x"
  shows "length (filter P xs) < length (filter Q xs)"
  using assms
proof (induction xs)
  case Nil
  then show ?case by simp
next
  case (Cons x xs)
  have le: "length (filter P xs) \<le> length (filter Q xs)"
  proof -
    have "filter P xs = filter P (filter Q xs)"
      using Cons.prems(1) by (auto intro: filter_cong simp: filter_filter)
    then show ?thesis by (metis length_filter_le)
  qed
  show ?case
  proof (cases "Q x \<and> \<not> P x")
    case True
    with le show ?thesis by simp
  next
    case False
    with Cons.prems(2) have "\<exists>x\<in>set xs. Q x \<and> \<not> P x" by auto
    with Cons.IH Cons.prems(1) have "length (filter P xs) < length (filter Q xs)" by simp
    with False Cons.prems(1) show ?thesis by auto
  qed
qed






text \<open>
  The conditions of the insufficient-data property. A supplied waveform is not empty and
  its time span, the float difference of its latest and its earliest sample time, is
  below the minimum window duration; an absent waveform has nothing to check. Or no
  sample time \<open>t\<close> of a supplied waveform is a candidate end time: the float
  \<open>t - min_window_duration\<close> is below the floor (with no start time given the floor
  needs a sample). And the worker count is one with which the pool can be created.
\<close>

definition short_span ::
    "(real \<Rightarrow> real \<Rightarrow> real) \<Rightarrow> 'v waveform option \<Rightarrow> real \<Rightarrow> bool" where
  "short_span fsub waveform min_window_duration =
     (case waveform of
        None \<Rightarrow> True
      | Some w \<Rightarrow> w \<noteq> [] \<and>
          fsub (Max (set (keys w))) (Min (set (keys w))) < min_window_duration)"

definition pool_can_be_created :: "cores \<Rightarrow> int option \<Rightarrow> bool" where
  "pool_can_be_created num_cores cpu_count =
     (case num_processes num_cores cpu_count of Inl e \<Rightarrow> False | Inr n \<Rightarrow> 1 \<le> n)"

definition no_candidate ::
    "(real \<Rightarrow> real \<Rightarrow> real) \<Rightarrow> 'v waveform option \<Rightarrow> real option \<Rightarrow> real \<Rightarrow> bool" where
  "no_candidate fsub waveform start_time min_window_duration =
     (case waveform of
        None \<Rightarrow> True
      | Some w \<Rightarrow> (start_time = None \<longrightarrow> w \<noteq> []) \<and>
          (\<forall>t\<in>set (keys w). fsub t min_window_duration < floor_time w start_time))"
section \<open>Region union\<close>

text \<open>
  Claim C6. For regions \<open>r1\<close>, \<open>r2\<close> with \<open>start \<le> end\<close>, \<open>unionize_regions\<close>
  returns \<open>None\<close> exactly when \<open>r1.end < r2.start\<close> or \<open>r2.end < r1.start\<close>, and
  otherwise the region from the smaller start to the larger end, which covers exactly the
  points of the two regions; regions that share a boundary value are merged.
\<close>

theorem unionize_regions_spec:
  assumes "valid_region r1" and "valid_region r2"
  shows "(unionize_regions r1 r2 = None) = (snd r1 < fst r2 \<or> snd r2 < fst r1) \<and>
         (\<not> (snd r1 < fst r2 \<or> snd r2 < fst r1) \<longrightarrow>
            unionize_regions r1 r2 = Some (min (fst r1) (fst r2), max (snd r1) (snd r2))) \<and>
         (\<forall>u. unionize_regions r1 r2 = Some u \<longrightarrow> covers u = covers r1 \<union> covers r2) \<and>
         (snd r1 = fst r2 \<or> snd r2 = fst r1 \<longrightarrow> unionize_regions r1 r2 \<noteq> None)"
proof -
  have a: "(unionize_regions r1 r2 = None) = (snd r1 < fst r2 \<or> snd r2 < fst r1)"
    by (simp add: unionize_regions_def)
  have b: "\<not> (snd r1 < fst r2 \<or> snd r2 < fst r1) \<longrightarrow>
           unionize_regions r1 r2 = Some (min (fst r1) (fst r2), max (snd r1) (snd r2))"
    by (simp add: unionize_regions_def)
  have c: "\<forall>u. unionize_regions r1 r2 = Some u \<longrightarrow> covers u = covers r1 \<union> covers r2"
    using assms
    by (auto simp: unionize_regions_def covers_def valid_region_def split: if_splits)
  have d: "snd r1 = fst r2 \<or> snd r2 = fst r1 \<longrightarrow> unionize_regions r1 r2 \<noteq> None"
    using assms by (auto simp: unionize_regions_def valid_region_def)
  from a b c d show ?thesis by blast
qed

theorem unionize_regions_spec_witness:
  "valid_region (0, 5) \<and> valid_region (5, 10) \<and>
   unionize_regions (0, 5) (5, 10) = Some (0, 10) \<and>
   unionize_regions (0, 1) (5, 6) = None"
proof -
  have v: "valid_region (0, 5)" "valid_region (5, 10)" "valid_region (0, 1)" "valid_region (5, 6)"
    by (simp_all add: valid_region_def)
  have "unionize_regions (0, 5) (5, 10) = Some (0, 10)"
    using unionize_regions_spec [OF v(1) v(2)] by simp
  moreover have "unionize_regions (0, 1) (5, 6) = None"
    using unionize_regions_spec [OF v(3) v(4)] by simp
  ultimately show ?thesis using v by simp
qed


section \<open>Threshold evaluation\<close>

lemma real_arith_simps [simp]:
  "f_lit real_arith x = x" "f_len real_arith n = real n" "f_sum real_arith xs = sum_list xs"
  "f_add real_arith a b = a + b" "f_mul real_arith a b = a * b" "f_div real_arith a b = a / b"
  "f_abs real_arith a = \<bar>a\<bar>" "f_sqrt real_arith a = sqrt a"
  "f_lt real_arith a b = (a < b)" "f_le real_arith a b = (a \<le> b)"
  "f_gt real_arith a b = (a > b)"
  by (simp_all add: real_arith_def)

lemma real_arith_laws: "float_laws real_arith"
  by (simp add: float_laws_def)

lemma real_sub_mono: "sub_mono real_sub"
  by (simp add: sub_mono_def real_sub_def)

lemma is_current_below_letgo_eval:
  assumes "vs \<noteq> []" and "supported interp"
  shows "is_current_below_letgo ops (Some vs) interp UL1400_1_ISSUE_1 =
     (if f_lt ops (mean_mA ops interp vs) (f_lit ops 0) then Inl NegativeMean
      else if f_le ops (mean_mA ops interp vs) (f_lit ops 4.21) \<or>
              f_le ops (mean_mA ops interp vs) (f_lit ops 30)
        then Inr (Some (f_le ops (peak_mA ops interp vs)
                          (current_limit ops interp (mean_mA ops interp vs))))
      else if interp = STRICT \<or> interp = TYPOS then Inl AboveCeiling
      else Inr (Some False))"
  using assms
  by (cases interp)
     (simp_all add: is_current_below_letgo_def Let_def supported_def peak_mA_def peak_of_def
        mean_mA_def average_def current_limit_def)

lemma is_voltage_below_letgo_eval:
  assumes "vs \<noteq> []" and "supported interp" and "env = ''wet'' \<or> env = ''dry''"
  shows "is_voltage_below_letgo ops (Some vs) (Some env) interp UL1400_1_ISSUE_1 =
     (if f_lt ops (mean_of ops interp vs) (f_lit ops 0) then Inl NegativeMean
      else if env = ''wet'' then
        (if f_le ops (mean_of ops interp vs) (f_lit ops 10.4)
           then Inr (Some (f_le ops (peak_of ops interp vs) (f_lit ops 21.2)))
         else if f_le ops (mean_of ops interp vs) (f_lit ops 30)
           then Inr (Some (f_le ops (peak_of ops interp vs)
                  (f_add ops (f_lit ops 16.5) (f_mul ops (f_lit ops 0.45) (mean_of ops interp vs)))))
         else if interp = STRICT \<or> interp = TYPOS then Inl AboveCeiling
         else Inr (Some False))
      else
        (if f_le ops (mean_of ops interp vs) (f_lit ops 20.9)
           then Inr (Some (f_le ops (peak_of ops interp vs) (f_lit ops 42.4)))
         else if f_le ops (mean_of ops interp vs) (f_lit ops 60)
           then Inr (Some (f_le ops (peak_of ops interp vs)
                  (f_add ops (f_lit ops 33) (f_mul ops (f_lit ops 0.45) (mean_of ops interp vs)))))
         else if interp = STRICT \<or> interp = TYPOS then Inl AboveCeiling
         else Inr (Some False)))"
  using assms
  by (cases interp)
     (auto simp add: is_voltage_below_letgo_def Let_def supported_def peak_of_def mean_of_def
        average_def)

text \<open>Above a literal, a value is neither below zero nor at most a smaller literal.\<close>

lemma above_literal:
  assumes "float_laws ops" and "f_lt ops (f_lit ops c) m" and "0 \<le> c" and "a \<le> c"
  shows "\<not> f_lt ops m (f_lit ops 0)" and "\<not> f_le ops m (f_lit ops a)"
    and "\<not> f_le ops m (f_lit ops c)"
proof -
  from assms(1) have
    l1: "\<And>x y. f_lt ops x y \<Longrightarrow> f_le ops x y" and
    l2: "\<And>x y. f_lt ops x y \<Longrightarrow> \<not> f_le ops y x" and
    l3: "\<And>x y z. f_le ops x y \<Longrightarrow> f_le ops y z \<Longrightarrow> f_le ops x z" and
    l4: "\<And>a b. a \<le> b \<Longrightarrow> f_le ops (f_lit ops a) (f_lit ops b)"
    by (auto simp: float_laws_def)
  from l2 [OF assms(2)] show c: "\<not> f_le ops m (f_lit ops c)" .
  show "\<not> f_le ops m (f_lit ops a)"
  proof
    assume "f_le ops m (f_lit ops a)"
    from l3 [OF this l4 [OF assms(4)]] c show False by simp
  qed
  show "\<not> f_lt ops m (f_lit ops 0)"
  proof
    assume "f_lt ops m (f_lit ops 0)"
    from l3 [OF l1 [OF this] l4 [OF assms(3)]] c show False by simp
  qed
qed

lemma five_sqrt2: "5 * sqrt 2 = sqrt 50"
proof -
  have "sqrt 50 = sqrt (25 * 2)" by simp
  also have "\<dots> = sqrt 25 * sqrt 2" by (rule real_sqrt_mult)
  also have "sqrt 25 = 5" using real_sqrt_abs [of 5] by simp
  finally show ?thesis by simp
qed

lemma le_five_sqrt2_iff: "0 \<le> x \<Longrightarrow> (x \<le> 5 * sqrt 2) = (x * x \<le> 50)"
proof -
  assume x: "0 \<le> x"
  have "(x \<le> sqrt 50) = (sqrt (x * x) \<le> sqrt 50)" using x by (simp add: real_sqrt_mult_self)
  also have "\<dots> = (x * x \<le> 50)" by (rule real_sqrt_le_iff)
  finally show ?thesis by (simp add: five_sqrt2)
qed

lemma one_below_limit: "(1::real) \<le> 5 * sqrt 2"
  using le_five_sqrt2_iff [of 1] by simp




text \<open>
  Claim C2. For a non-empty list of values whose mean, as the evaluator computes it at
  the interpretation level (the magnitude under \<open>REASONABLE\<close> and \<open>SPECULATIVE\<close>), is
  above the ceiling of the formula (30 mA for current, 30 V wet and 60 V dry for
  voltage), the evaluators raise the undefined-domain \<open>ValueError\<close> under \<open>STRICT\<close> and
  \<open>TYPOS\<close> and return \<open>False\<close> under \<open>REASONABLE\<close> and \<open>SPECULATIVE\<close>.
\<close>

theorem above_ceiling_spec:
  assumes "vs \<noteq> []" and "supported interp" and "float_laws ops"
  shows "(f_lt ops (f_lit ops 30) (mean_mA ops interp vs) \<longrightarrow>
            is_current_below_letgo ops (Some vs) interp UL1400_1_ISSUE_1 =
              (if interp = STRICT \<or> interp = TYPOS then Inl AboveCeiling
               else Inr (Some False))) \<and>
         (f_lt ops (f_lit ops 30) (mean_of ops interp vs) \<longrightarrow>
            is_voltage_below_letgo ops (Some vs) (Some ''wet'') interp UL1400_1_ISSUE_1 =
              (if interp = STRICT \<or> interp = TYPOS then Inl AboveCeiling
               else Inr (Some False))) \<and>
         (f_lt ops (f_lit ops 60) (mean_of ops interp vs) \<longrightarrow>
            is_voltage_below_letgo ops (Some vs) (Some ''dry'') interp UL1400_1_ISSUE_1 =
              (if interp = STRICT \<or> interp = TYPOS then Inl AboveCeiling
               else Inr (Some False))) \<and>
         is_UndefinedDomainError AboveCeiling"
proof -
  have c: "is_current_below_letgo ops (Some vs) interp UL1400_1_ISSUE_1 =
              (if interp = STRICT \<or> interp = TYPOS then Inl AboveCeiling
               else Inr (Some False))"
    if h: "f_lt ops (f_lit ops 30) (mean_mA ops interp vs)"
    using above_literal [OF assms(3) h, of "4.21"] assms(1,2)
    by (simp add: is_current_below_letgo_eval)
  have w: "is_voltage_below_letgo ops (Some vs) (Some ''wet'') interp UL1400_1_ISSUE_1 =
              (if interp = STRICT \<or> interp = TYPOS then Inl AboveCeiling
               else Inr (Some False))"
    if h: "f_lt ops (f_lit ops 30) (mean_of ops interp vs)"
    using above_literal [OF assms(3) h, of "10.4"] assms(1,2)
    by (simp add: is_voltage_below_letgo_eval)
  have d: "is_voltage_below_letgo ops (Some vs) (Some ''dry'') interp UL1400_1_ISSUE_1 =
              (if interp = STRICT \<or> interp = TYPOS then Inl AboveCeiling
               else Inr (Some False))"
    if h: "f_lt ops (f_lit ops 60) (mean_of ops interp vs)"
    using above_literal [OF assms(3) h, of "20.9"] assms(1,2)
    by (simp add: is_voltage_below_letgo_eval)
  from c w d show ?thesis by simp
qed

theorem above_ceiling_spec_witness:
  "is_current_below_letgo real_arith (Some [0.03125]) STRICT UL1400_1_ISSUE_1
     = Inl AboveCeiling \<and>
   is_current_below_letgo real_arith (Some [0.03125]) REASONABLE UL1400_1_ISSUE_1
     = Inr (Some False) \<and>
   is_voltage_below_letgo real_arith (Some [32]) (Some ''wet'') TYPOS UL1400_1_ISSUE_1
     = Inl AboveCeiling \<and>
   is_voltage_below_letgo real_arith (Some [64]) (Some ''dry'') SPECULATIVE UL1400_1_ISSUE_1
     = Inr (Some False)"
proof -
  note defs = supported_def mean_mA_def mean_of_def average_def real_arith_laws
  have a: "is_current_below_letgo real_arith (Some [0.03125]) STRICT UL1400_1_ISSUE_1
     = Inl AboveCeiling"
    using above_ceiling_spec [of "[0.03125]" STRICT real_arith] by (simp add: defs)
  have b: "is_current_below_letgo real_arith (Some [0.03125]) REASONABLE UL1400_1_ISSUE_1
     = Inr (Some False)"
    using above_ceiling_spec [of "[0.03125]" REASONABLE real_arith] by (simp add: defs)
  have c: "is_voltage_below_letgo real_arith (Some [32]) (Some ''wet'') TYPOS
     UL1400_1_ISSUE_1 = Inl AboveCeiling"
    using above_ceiling_spec [of "[32]" TYPOS real_arith] by (simp add: defs)
  have d: "is_voltage_below_letgo real_arith (Some [64]) (Some ''dry'') SPECULATIVE
     UL1400_1_ISSUE_1 = Inr (Some False)"
    using above_ceiling_spec [of "[64]" SPECULATIVE real_arith] by (simp add: defs)
  from a b c d show ?thesis by simp
qed

text \<open>
  Claim C3 says that a strictly negative average raises at every interpretation level.
  Under \<open>REASONABLE\<close> and \<open>SPECULATIVE\<close> the evaluators replace the mean by its
  magnitude before the guard \<open>mean < 0\<close>, so the guard cannot fire: the list
  \<open>[-0.0009765625]\<close> has a negative average and gets the verdict \<open>True\<close>.
\<close>

theorem negative_mean_counterexample:
  "average real_arith [-0.0009765625] < 0 \<and>
   is_current_below_letgo real_arith (Some [-0.0009765625]) REASONABLE UL1400_1_ISSUE_1
     = Inr (Some True) \<and>
   is_voltage_below_letgo real_arith (Some [-1]) (Some ''wet'') SPECULATIVE UL1400_1_ISSUE_1
     = Inr (Some True)"
  using one_below_limit
  by (simp add: average_def is_current_below_letgo_def is_voltage_below_letgo_def Let_def)

text \<open>
  Claim C3, amended. For a non-empty list of values whose mean as the evaluator computes
  it (the average, for current scaled to milliamperes) is strictly negative, the
  evaluators (voltage with environment wet or dry) raise the undefined-domain
  \<open>ValueError\<close> under \<open>STRICT\<close> and \<open>TYPOS\<close>; under \<open>REASONABLE\<close> and
  \<open>SPECULATIVE\<close> they take the magnitude of the mean, raise nothing on any non-empty
  list and return a verdict.
\<close>

theorem negative_mean_by_level:
  assumes "vs \<noteq> []" and "env = ''wet'' \<or> env = ''dry''" and "float_laws ops"
  shows "(interp = STRICT \<or> interp = TYPOS \<longrightarrow>
            (f_lt ops (f_mul ops (average ops vs) (f_lit ops 1000)) (f_lit ops 0) \<longrightarrow>
               is_current_below_letgo ops (Some vs) interp UL1400_1_ISSUE_1
                 = Inl NegativeMean) \<and>
            (f_lt ops (average ops vs) (f_lit ops 0) \<longrightarrow>
               is_voltage_below_letgo ops (Some vs) (Some env) interp UL1400_1_ISSUE_1
                 = Inl NegativeMean)) \<and>
         (interp = REASONABLE \<or> interp = SPECULATIVE \<longrightarrow>
            (\<exists>b. is_current_below_letgo ops (Some vs) interp UL1400_1_ISSUE_1
                   = Inr (Some b)) \<and>
            (\<exists>b. is_voltage_below_letgo ops (Some vs) (Some env) interp UL1400_1_ISSUE_1
                   = Inr (Some b))) \<and>
         is_UndefinedDomainError NegativeMean"
proof -
  from assms(3) have nonneg: "\<And>x. \<not> f_lt ops (f_abs ops x) (f_lit ops 0)"
    by (simp add: float_laws_def)
  have a: "interp = STRICT \<or> interp = TYPOS \<Longrightarrow>
            f_lt ops (f_mul ops (average ops vs) (f_lit ops 1000)) (f_lit ops 0) \<Longrightarrow>
            is_current_below_letgo ops (Some vs) interp UL1400_1_ISSUE_1 = Inl NegativeMean"
    using assms(1)
    by (auto simp add: is_current_below_letgo_eval mean_mA_def supported_def)
  have b: "interp = STRICT \<or> interp = TYPOS \<Longrightarrow>
            f_lt ops (average ops vs) (f_lit ops 0) \<Longrightarrow>
            is_voltage_below_letgo ops (Some vs) (Some env) interp UL1400_1_ISSUE_1
              = Inl NegativeMean"
    using assms(1,2)
    by (auto simp add: is_voltage_below_letgo_eval mean_of_def supported_def)
  have c: "interp = REASONABLE \<or> interp = SPECULATIVE \<Longrightarrow>
            \<exists>b. is_current_below_letgo ops (Some vs) interp UL1400_1_ISSUE_1 = Inr (Some b)"
    using assms(1) nonneg
    by (auto simp add: is_current_below_letgo_eval mean_mA_def supported_def)
  have d: "interp = REASONABLE \<or> interp = SPECULATIVE \<Longrightarrow>
            \<exists>b. is_voltage_below_letgo ops (Some vs) (Some env) interp UL1400_1_ISSUE_1
                  = Inr (Some b)"
    using assms(1,2) nonneg
    by (auto simp add: is_voltage_below_letgo_eval mean_of_def supported_def)
  from a b c d show ?thesis by simp
qed

theorem negative_mean_by_level_witness:
  "average real_arith [-0.0009765625, 0] < 0 \<and>
   is_current_below_letgo real_arith (Some [-0.0009765625, 0]) STRICT UL1400_1_ISSUE_1
     = Inl NegativeMean \<and>
   is_voltage_below_letgo real_arith (Some [-0.0009765625, 0]) (Some ''dry'') TYPOS
     UL1400_1_ISSUE_1 = Inl NegativeMean"
proof -
  have n: "average real_arith [-0.0009765625, 0] < 0" by (simp add: average_def)
  have a: "is_current_below_letgo real_arith (Some [-0.0009765625, 0]) STRICT
     UL1400_1_ISSUE_1 = Inl NegativeMean"
    using negative_mean_by_level [of "[-0.0009765625, 0]" "''dry''" real_arith STRICT]
      real_arith_laws
    by (simp add: average_def)
  have b: "is_voltage_below_letgo real_arith (Some [-0.0009765625, 0]) (Some ''dry'') TYPOS
     UL1400_1_ISSUE_1 = Inl NegativeMean"
    using negative_mean_by_level [of "[-0.0009765625, 0]" "''dry''" real_arith TYPOS]
      real_arith_laws
    by (simp add: average_def)
  from n a b show ?thesis by simp
qed

text \<open>
  Claim C4 says that an invalid configuration raises even when the values are absent. The
  evaluators test \<open>segment_values is None\<close> first and return \<open>None\<close> there, whatever
  the configuration is.
\<close>

theorem configuration_error_counterexample:
  "is_below_letgo real_arith ''current'' None None STRICT OTHER_STANDARD_VERSION
     = Inr None \<and>
   is_below_letgo real_arith ''current'' None None OTHER_INTERPRETATION UL1400_1_ISSUE_1
     = Inr None \<and>
   is_below_letgo real_arith ''voltage'' None (Some ''damp'') STRICT UL1400_1_ISSUE_1
     = Inr None"
  by (simp add: is_below_letgo_def is_current_below_letgo_def is_voltage_below_letgo_def)

text \<open>
  Claim C4, amended. For measurement kind current or voltage, a call with an unsupported
  standard version, an interpretation outside the four levels, or (for voltage) an
  environment other than wet and dry raises a configuration \<open>ValueError\<close> whenever values
  are supplied, before anything is computed from them; with absent values the same call
  returns \<open>None\<close> (Indeterminate).
\<close>

theorem configuration_error_when_values_present:
  assumes "standard_version \<noteq> UL1400_1_ISSUE_1 \<or> \<not> supported interp \<or>
           (measurement_type = ''voltage'' \<and> env \<noteq> Some ''wet'' \<and> env \<noteq> Some ''dry'')"
    and "measurement_type = ''current'' \<or> measurement_type = ''voltage''"
  shows "(\<exists>e. is_below_letgo ops measurement_type (Some vs) env interp standard_version
                = Inl e \<and> is_ConfigurationError e) \<and>
         is_below_letgo ops measurement_type None env interp standard_version = Inr None"
  using assms
  by (cases interp)
     (auto simp add: is_below_letgo_def is_current_below_letgo_def is_voltage_below_letgo_def
        supported_def)

theorem configuration_error_when_values_present_witness:
  "is_below_letgo real_arith ''current'' (Some [0.00390625]) None STRICT OTHER_STANDARD_VERSION
     = Inl UnsupportedStandardVersion \<and>
   is_below_letgo real_arith ''voltage'' (Some [1]) (Some ''damp'') STRICT UL1400_1_ISSUE_1
     = Inl InvalidEnvironment \<and>
   is_below_letgo real_arith ''voltage'' None (Some ''damp'') STRICT UL1400_1_ISSUE_1
     = Inr None"
proof -
  have a: "is_below_letgo real_arith ''voltage'' None (Some ''damp'') STRICT
     UL1400_1_ISSUE_1 = Inr None"
    using configuration_error_when_values_present
            [of UL1400_1_ISSUE_1 STRICT "''voltage''" "Some ''damp''" real_arith "[1]"]
    by simp
  have b: "is_below_letgo real_arith ''current'' (Some [0.00390625]) None STRICT
     OTHER_STANDARD_VERSION = Inl UnsupportedStandardVersion"
    by (simp add: is_below_letgo_def is_current_below_letgo_def)
  have c: "is_below_letgo real_arith ''voltage'' (Some [1]) (Some ''damp'') STRICT
     UL1400_1_ISSUE_1 = Inl InvalidEnvironment"
    by (simp add: is_below_letgo_def is_voltage_below_letgo_def)
  from a b c show ?thesis by simp
qed
section \<open>Merging regions\<close>

lemma insert_remove1: "x \<in> set xs \<Longrightarrow> insert x (set (remove1 x xs)) = set xs"
  by (induction xs) auto

lemma unionize_regions_commute_None:
  "(unionize_regions a b = None) = (unionize_regions b a = None)"
  by (auto simp: unionize_regions_def)

lemma unionize_regions_covers:
  "valid_region a \<Longrightarrow> valid_region b \<Longrightarrow> unionize_regions a b = Some u \<Longrightarrow>
     covers u = covers a \<union> covers b \<and> valid_region u"
  by (auto simp: unionize_regions_def covers_def valid_region_def split: if_splits)

lemma merge_step:
  assumes "first_mergeable_pair rs = Some (r1, r2, u)" and "valid_regions rs"
  shows "covered (remove1 r2 (remove1 r1 rs) @ [u]) = covered rs"
    and "valid_regions (remove1 r2 (remove1 r1 rs) @ [u])"
proof -
  from first_mergeable_pair_Some [OF assms(1)]
  have a: "r1 \<in> set rs" and b: "r2 \<in> set (remove1 r1 rs)"
    and c: "unionize_regions r1 r2 = Some u" by simp_all
  let ?rest = "remove1 r2 (remove1 r1 rs)"
  have s: "set rs = insert r1 (insert r2 (set ?rest))"
    using insert_remove1 [OF a] insert_remove1 [OF b] by simp
  from assms(2) s have v: "valid_region r1" "valid_region r2" "\<forall>r\<in>set ?rest. valid_region r"
    by (simp_all add: valid_regions_def list_all_iff)
  from unionize_regions_covers [OF v(1) v(2) c]
  have u: "covers u = covers r1 \<union> covers r2" "valid_region u" by simp_all
  show "covered (?rest @ [u]) = covered rs"
    unfolding covered_def s using u(1) by auto
  show "valid_regions (?rest @ [u])"
    using v(3) u(2) by (simp add: valid_regions_def list_all_iff)
qed

lemma merge_loop_separated: "separated (merge_loop rs)"
proof (induction rs rule: merge_loop.induct)
  case (1 rs)
  show ?case
  proof (cases "first_mergeable_pair rs")
    case None
    then show ?thesis
      by (simp add: merge_loop.simps [of rs] separated_def
            first_mergeable_pair_None [symmetric])
  next
    case (Some t)
    obtain r1 r2 u where t: "t = (r1, r2, u)" by (cases t)
    from "1.IH" [OF Some [unfolded t] refl refl] Some t
    show ?thesis by (simp add: merge_loop.simps [of rs])
  qed
qed

lemma merge_loop_covered:
  "valid_regions rs \<Longrightarrow>
     covered (merge_loop rs) = covered rs \<and> valid_regions (merge_loop rs)"
proof (induction rs rule: merge_loop.induct)
  case (1 rs)
  show ?case
  proof (cases "first_mergeable_pair rs")
    case None
    with "1.prems" show ?thesis by (simp add: merge_loop.simps [of rs])
  next
    case (Some t)
    obtain r1 r2 u where t: "t = (r1, r2, u)" by (cases t)
    note st = merge_step [OF Some [unfolded t] "1.prems"]
    from "1.IH" [OF Some [unfolded t] refl refl st(2)] st(1) Some t
    show ?thesis by (simp add: merge_loop.simps [of rs])
  qed
qed

lemma merge_loop_length: "length (merge_loop rs) \<le> length rs"
proof (induction rs rule: merge_loop.induct)
  case (1 rs)
  show ?case
  proof (cases "first_mergeable_pair rs")
    case None
    then show ?thesis by (simp add: merge_loop.simps [of rs])
  next
    case (Some t)
    obtain r1 r2 u where t: "t = (r1, r2, u)" by (cases t)
    from "1.IH" [OF Some [unfolded t] refl refl] length_after_merge [OF Some [unfolded t]]
      Some t
    show ?thesis by (simp add: merge_loop.simps [of rs])
  qed
qed

lemma merge_loop_fixed: "separated rs \<Longrightarrow> merge_loop rs = rs"
  by (simp add: merge_loop.simps [of rs] separated_def first_mergeable_pair_None [symmetric])

lemma separated_pair:
  assumes "separated rs" and "a \<in> set rs" and "b \<in> set rs" and "a \<noteq> b"
  shows "unionize_regions a b = None"
  using assms unfolding separated_def
proof (induction rs)
  case Nil
  then show ?case by simp
next
  case (Cons r rs)
  then show ?case
    using unionize_regions_commute_None [of a b] by auto
qed

lemma separated_distinct: "separated rs \<Longrightarrow> valid_regions rs \<Longrightarrow> distinct rs"
  unfolding separated_def valid_regions_def
  by (induction rs) (auto simp: unionize_regions_def valid_region_def)

text \<open>
  A closed interval inside the points covered by separated regions lies inside one of
  them: beyond the end of the region that holds its left end, and before the next start,
  there would be a point that no region covers.
\<close>

lemma interval_in_one_region:
  assumes sep: "separated F" and cov: "{x..y} \<subseteq> covered F" and xy: "x \<le> y"
  shows "\<exists>f\<in>set F. fst f \<le> x \<and> y \<le> snd f"
proof -
  from cov xy have "x \<in> covered F" by auto
  then obtain f where f: "f \<in> set F" "fst f \<le> x" "x \<le> snd f"
    by (auto simp: covered_def covers_def)
  have "y \<le> snd f"
  proof (rule ccontr)
    assume "\<not> y \<le> snd f"
    then have fy: "snd f < y" by simp
    define S where "S = {s. \<exists>g\<in>set F. s = fst g \<and> snd f < s}"
    have finS: "finite S" unfolding S_def by simp
    define m where "m = (if S = {} then y else min y (Min S))"
    have bm: "snd f < m"
    proof (cases "S = {}")
      case True
      with fy show ?thesis by (simp add: m_def)
    next
      case False
      with finS have "Min S \<in> S" by simp
      then have "snd f < Min S" by (simp add: S_def)
      with fy False show ?thesis by (simp add: m_def)
    qed
    have my: "m \<le> y" by (simp add: m_def)
    define z where "z = (snd f + m) / 2"
    from bm have z: "snd f < z" "z < m" by (simp_all add: z_def)
    with my f have "z \<in> {x..y}" by simp
    with cov have "z \<in> covered F" by blast
    then obtain g where g: "g \<in> set F" "fst g \<le> z" "z \<le> snd g"
      by (auto simp: covered_def covers_def)
    from g z have "g \<noteq> f" by auto
    from separated_pair [OF sep f(1) g(1) this [symmetric]]
    have "snd f < fst g \<or> snd g < fst f"
      by (simp add: unionize_regions_def split: if_splits)
    then show False
    proof
      assume a: "snd f < fst g"
      with g(1) have "fst g \<in> S" by (auto simp: S_def)
      with finS have "Min S \<le> fst g" "S \<noteq> {}" by auto
      then have "m \<le> fst g" by (simp add: m_def)
      with g(2) z(2) show False by simp
    next
      assume "snd g < fst f"
      with g(3) f z(1) show False by simp
    qed
  qed
  with f show ?thesis by blast
qed

lemma separated_subset:
  assumes "separated A" and "valid_regions A" and "separated B"
    and "covered A = covered B"
  shows "set A \<subseteq> set B"
proof
  fix r assume r: "r \<in> set A"
  with assms(2) have v: "fst r \<le> snd r"
    by (simp add: valid_regions_def list_all_iff valid_region_def)
  from r have "{fst r..snd r} \<subseteq> covered A" by (auto simp: covered_def covers_def)
  with assms(4) have "{fst r..snd r} \<subseteq> covered B" by simp
  from interval_in_one_region [OF assms(3) this v]
  obtain g where g: "g \<in> set B" "fst g \<le> fst r" "snd r \<le> snd g" by blast
  with v have vg: "fst g \<le> snd g" by simp
  from g(1) have "{fst g..snd g} \<subseteq> covered B" by (auto simp: covered_def covers_def)
  with assms(4) have "{fst g..snd g} \<subseteq> covered A" by simp
  from interval_in_one_region [OF assms(1) this vg]
  obtain h where h: "h \<in> set A" "fst h \<le> fst g" "snd g \<le> snd h" by blast
  have "h = r"
  proof (rule ccontr)
    assume "h \<noteq> r"
    from separated_pair [OF assms(1) h(1) r this]
    have "snd h < fst r \<or> snd r < fst h"
      by (simp add: unionize_regions_def split: if_splits)
    with g h v show False by auto
  qed
  with g h have "fst g = fst r" "snd g = snd r" by auto
  then have "g = r" by (simp add: prod_eq_iff)
  with g(1) show "r \<in> set B" by simp
qed

lemma separated_unique:
  assumes "separated A" and "valid_regions A" and "separated B" and "valid_regions B"
    and "covered A = covered B"
  shows "set A = set B"
  using separated_subset [OF assms(1,2,3,5)] separated_subset [OF assms(3,4,1) assms(5) [symmetric]]
  by blast

text \<open>
  Claim C5. For every list \<open>R\<close> of regions with \<open>start \<le> end\<close>, \<open>merge_regions R\<close>
  consists of regions with \<open>start \<le> end\<close> that are pairwise disjoint and not adjacent
  and cover the same points as \<open>R\<close>; it is the only such set of regions, and no list of
  regions covering the same points is shorter. Hence merging the result again changes
  nothing, and merging a permutation of \<open>R\<close> gives the same set of regions.
\<close>

theorem merge_regions_minimal_partition:
  assumes "valid_regions R"
  shows "valid_regions (merge_regions R) \<and> separated (merge_regions R) \<and>
         distinct (merge_regions R) \<and> covered (merge_regions R) = covered R \<and>
         (\<forall>S. valid_regions S \<and> separated S \<and> covered S = covered R \<longrightarrow>
              set S = set (merge_regions R)) \<and>
         (\<forall>S. valid_regions S \<and> covered S = covered R \<longrightarrow>
              length (merge_regions R) \<le> length S) \<and>
         merge_regions (merge_regions R) = merge_regions R \<and>
         (\<forall>R'. mset R' = mset R \<longrightarrow> set (merge_regions R') = set (merge_regions R))"
proof -
  let ?M = "merge_regions R"
  have sep: "separated ?M" by (simp add: merge_regions_def merge_loop_separated)
  from merge_loop_covered [OF assms]
  have cov: "covered ?M = covered R" and val: "valid_regions ?M"
    by (simp_all add: merge_regions_def)
  from separated_distinct [OF sep val] have dis: "distinct ?M" .
  have uniq: "set S = set ?M"
    if "valid_regions S \<and> separated S \<and> covered S = covered R" for S
    using that separated_unique [of S ?M] sep val cov by simp
  have least: "length ?M \<le> length S" if s: "valid_regions S \<and> covered S = covered R" for S
  proof -
    from s merge_loop_covered [of S]
    have "valid_regions (merge_loop S)" "covered (merge_loop S) = covered R" by simp_all
    with uniq [of "merge_loop S"] merge_loop_separated [of S]
    have "set (merge_loop S) = set ?M" by simp
    then have "card (set ?M) \<le> length (merge_loop S)"
      using card_length [of "merge_loop S"] by simp
    with dis have "length ?M \<le> length (merge_loop S)" by (simp add: distinct_card)
    with merge_loop_length [of S] show ?thesis by simp
  qed
  have idem: "merge_regions ?M = ?M"
    using sep by (simp add: merge_regions_def merge_loop_fixed)
  have perm: "set (merge_regions R') = set ?M" if p: "mset R' = mset R" for R'
  proof -
    from p have e: "set R' = set R" by (rule mset_eq_setD)
    with assms have v: "valid_regions R'" by (simp add: valid_regions_def list_all_iff)
    from merge_loop_covered [OF v] e
    have "valid_regions (merge_regions R')" "covered (merge_regions R') = covered R"
      by (simp_all add: merge_regions_def covered_def)
    with uniq [of "merge_regions R'"] merge_loop_separated [of R']
    show ?thesis by (simp add: merge_regions_def)
  qed
  from val sep dis cov uniq least idem perm show ?thesis by blast
qed

lemma merge_adjacent: "merge_regions [(0, 5), (5, 10)] = [(0, 10)]"
  by (simp add: merge_regions_def merge_loop.simps unionize_regions_def)

lemma merge_disjoint: "merge_regions [(0, 1), (5, 6)] = [(0, 1), (5, 6)]"
  by (simp add: merge_regions_def merge_loop.simps unionize_regions_def)

lemma merge_chain: "merge_regions [(0, 1), (5, 6), (1, 5)] = [(0, 6)]"
  by (simp add: merge_regions_def merge_loop.simps unionize_regions_def)

theorem merge_regions_minimal_partition_witness:
  "valid_regions [(0, 5), (5, 10)] \<and>
   merge_regions [(0, 5), (5, 10)] = [(0, 10)] \<and>
   merge_regions (merge_regions [(0, 5), (5, 10)]) = merge_regions [(0, 5), (5, 10)] \<and>
   set (merge_regions [(5, 10), (0, 5)]) = set (merge_regions [(0, 5), (5, 10)]) \<and>
   covered (merge_regions [(0, 5), (5, 10)]) = covered [(0, 5), (5, 10)]"
proof -
  have v: "valid_regions [(0, 5), (5, 10)]"
    by (simp add: valid_regions_def valid_region_def)
  note t = merge_regions_minimal_partition [OF v]
  have p: "mset [(5, 10), (0, 5)] = mset [(0, 5), (5::real, 10::real)]" by simp
  from t have "\<forall>R'. mset R' = mset [(0, 5), (5, 10)] \<longrightarrow>
      set (merge_regions R') = set (merge_regions [(0, 5), (5, 10)])" by blast
  with p have "set (merge_regions [(5, 10), (0, 5)]) = set (merge_regions [(0, 5), (5, 10)])"
    by blast
  with v t merge_adjacent show ?thesis by simp
qed


section \<open>Segment extraction\<close>

lemma keys_append [simp]: "keys (a @ b) = keys a @ keys b"
  by (simp add: keys_def)

lemma keys_single [simp]: "keys [(t, v)] = [t]"
  by (simp add: keys_def)

lemma keys_Nil [simp]: "(keys a = []) = (a = [])"
  by (simp add: keys_def)

lemma keys_empty [simp]: "keys [] = []"
  by (simp add: keys_def)

lemma key_in_waveform: "t \<in> set (keys w) \<Longrightarrow> (t, the (map_of w t)) \<in> set w"
proof -
  assume "t \<in> set (keys w)"
  then have "map_of w t \<noteq> None" by (simp add: keys_def map_of_eq_None_iff)
  then obtain v where "map_of w t = Some v" by blast
  then show ?thesis using map_of_SomeD [of w t v] by simp
qed

text \<open>
  The loop with direction \<open>start\<close>, from a non-empty segment made of waveform points: it
  returns; it returns \<open>None\<close> exactly when the loop test holds at every sample time from
  the segment's earliest time down; a returned segment extends the given one by earlier
  waveform points and fails the loop test.
\<close>

lemma extend_segment_start:
  assumes "seg \<noteq> []" and "set (keys seg) \<subseteq> set (keys w)"
  shows "\<exists>res. extend_segment fsub w d ''start'' seg = Some res \<and>
           ((res = None) =
              (\<forall>m\<in>set (keys w). m \<le> Min (set (keys seg)) \<longrightarrow>
                   fsub (Max (set (keys seg))) m < d)) \<and>
           (\<forall>out. res = Some out \<longrightarrow>
              (\<exists>ext. out = seg @ ext \<and>
                 (\<forall>p\<in>set ext. p \<in> set w \<and> fst p < Min (set (keys seg)))) \<and>
              \<not> fsub (Max (set (keys out))) (Min (set (keys out))) < d)"
  using assms
proof (induction "length (filter (\<lambda>p. fst p < Min (set (keys seg))) w)"
        arbitrary: seg rule: less_induct)
  case less
  let ?mn = "Min (set (keys seg))" and ?mx = "Max (set (keys seg))"
  let ?E = "filter (\<lambda>p. fst p < ?mn) w"
  from less.prems have ne: "set (keys seg) \<noteq> {}" by simp
  then have mn_in: "?mn \<in> set (keys seg)" and mx_in: "?mx \<in> set (keys seg)" by simp_all
  with less.prems(2) have mn_w: "?mn \<in> set (keys w)" by blast
  have mnmx: "?mn \<le> ?mx" using ne by simp
  show ?case
  proof (cases "fsub ?mx ?mn < d")
    case False
    then have "extend_segment fsub w d ''start'' seg = Some (Some seg)"
      using less.prems(1) by (subst extend_segment.simps) simp
    moreover from False mn_w
    have "\<not> (\<forall>m\<in>set (keys w). m \<le> ?mn \<longrightarrow> fsub ?mx m < d)" by auto
    ultimately show ?thesis using False by simp
  next
    case short: True
    show ?thesis
    proof (cases "?E = []")
      case True
      then have "extend_segment fsub w d ''start'' seg = Some None"
        using less.prems(1) short by (subst extend_segment.simps) simp
      moreover have "\<forall>m\<in>set (keys w). m \<le> ?mn \<longrightarrow> fsub ?mx m < d"
      proof (intro ballI impI)
        fix m assume m: "m \<in> set (keys w)" "m \<le> ?mn"
        from True have "\<forall>p\<in>set w. \<not> fst p < ?mn" by (simp add: filter_empty_conv)
        with m(1) have "\<not> m < ?mn" by (auto simp: keys_def)
        with m(2) have "m = ?mn" by simp
        with short show "fsub ?mx m < d" by simp
      qed
      ultimately show ?thesis by simp
    next
      case False
      define t where "t = Max (set (keys ?E))"
      define seg' where "seg' = seg @ [(t, the (map_of w t))]"
      from False have neE: "set (keys ?E) \<noteq> {}" by simp
      then have "t \<in> set (keys ?E)" unfolding t_def by simp
      then have t: "t \<in> set (keys w)" "t < ?mn" by (auto simp: keys_def)
      have tmax: "m \<le> t" if "m \<in> set (keys w)" "m < ?mn" for m
      proof -
        from that have "m \<in> set (keys ?E)" by (auto simp: keys_def)
        then show ?thesis unfolding t_def by (intro Max_ge) simp_all
      qed
      have step: "extend_segment fsub w d ''start'' seg = extend_segment fsub w d ''start'' seg'"
        using less.prems(1) short False
        by (subst extend_segment.simps) (simp add: seg'_def t_def Let_def)
      have ks: "set (keys seg') = insert t (set (keys seg))" by (simp add: seg'_def)
      have "Min (insert t (set (keys seg))) = min t ?mn"
        using ne by (intro Min_insert) simp_all
      also have "\<dots> = t" using t(2) by simp
      finally have mn': "Min (set (keys seg')) = t" by (simp only: ks)
      have "Max (insert t (set (keys seg))) = max t ?mx"
        using ne by (intro Max_insert) simp_all
      also have "\<dots> = ?mx" using t(2) mnmx by simp
      finally have mx': "Max (set (keys seg')) = ?mx" by (simp only: ks)
      have sub': "set (keys seg') \<subseteq> set (keys w)"
        using less.prems(2) t(1) by (simp add: seg'_def)
      have "length (filter (\<lambda>p. fst p < t) w) < length ?E"
      proof (rule length_filter_strict)
        show "\<And>x. x \<in> set w \<Longrightarrow> fst x < t \<Longrightarrow> fst x < ?mn" using t(2) by simp
        from t(1) obtain p where "p \<in> set w" "fst p = t" by (auto simp: keys_def)
        with t(2) show "\<exists>x\<in>set w. fst x < ?mn \<and> \<not> fst x < t" by auto
      qed
      then have "length (filter (\<lambda>p. fst p < Min (set (keys seg'))) w) < length ?E"
        by (simp add: mn')
      from less.hyps [OF this _ sub']
      obtain res where res: "extend_segment fsub w d ''start'' seg' = Some res"
        "(res = None) = (\<forall>m\<in>set (keys w). m \<le> t \<longrightarrow> fsub ?mx m < d)"
        "\<forall>out. res = Some out \<longrightarrow>
              (\<exists>ext. out = seg' @ ext \<and> (\<forall>p\<in>set ext. p \<in> set w \<and> fst p < t)) \<and>
              \<not> fsub (Max (set (keys out))) (Min (set (keys out))) < d"
        unfolding mn' mx' by (auto simp: seg'_def)
      have all: "(\<forall>m\<in>set (keys w). m \<le> t \<longrightarrow> fsub ?mx m < d) =
                 (\<forall>m\<in>set (keys w). m \<le> ?mn \<longrightarrow> fsub ?mx m < d)"
      proof
        assume a: "\<forall>m\<in>set (keys w). m \<le> t \<longrightarrow> fsub ?mx m < d"
        show "\<forall>m\<in>set (keys w). m \<le> ?mn \<longrightarrow> fsub ?mx m < d"
        proof (intro ballI impI)
          fix m assume m: "m \<in> set (keys w)" "m \<le> ?mn"
          show "fsub ?mx m < d"
          proof (cases "m < ?mn")
            case True
            with a m(1) tmax show ?thesis by blast
          next
            case False
            with m(2) have "m = ?mn" by simp
            with short show ?thesis by simp
          qed
        qed
      next
        assume "\<forall>m\<in>set (keys w). m \<le> ?mn \<longrightarrow> fsub ?mx m < d"
        with t(2) show "\<forall>m\<in>set (keys w). m \<le> t \<longrightarrow> fsub ?mx m < d" by auto
      qed
      have "(\<exists>ext. out = seg @ ext \<and> (\<forall>p\<in>set ext. p \<in> set w \<and> fst p < ?mn)) \<and>
              \<not> fsub (Max (set (keys out))) (Min (set (keys out))) < d"
        if o: "res = Some out" for out
      proof -
        from res(3) o obtain ext where e: "out = seg' @ ext"
          "\<forall>p\<in>set ext. p \<in> set w \<and> fst p < t"
          "\<not> fsub (Max (set (keys out))) (Min (set (keys out))) < d" by blast
        have "out = seg @ ((t, the (map_of w t)) # ext)" by (simp add: e(1) seg'_def)
        moreover have "\<forall>p\<in>set ((t, the (map_of w t)) # ext). p \<in> set w \<and> fst p < ?mn"
          using e(2) t key_in_waveform [OF t(1)] by auto
        ultimately show ?thesis using e(3) by blast
      qed
      with res(1,2) step all show ?thesis by simp
    qed
  qed
qed

lemma extend_segment_end_returns:
  assumes "seg \<noteq> []"
  shows "\<exists>res. extend_segment fsub w d ''end'' seg = Some res"
  using assms
proof (induction "length (filter (\<lambda>p. fst p > Max (set (keys seg))) w)"
        arbitrary: seg rule: less_induct)
  case less
  let ?mn = "Min (set (keys seg))" and ?mx = "Max (set (keys seg))"
  let ?L = "filter (\<lambda>p. fst p > ?mx) w"
  from less.prems have ne: "set (keys seg) \<noteq> {}" by simp
  show ?case
  proof (cases "fsub ?mx ?mn < d")
    case False
    then have "extend_segment fsub w d ''end'' seg = Some (Some seg)"
      using less.prems by (subst extend_segment.simps) simp
    then show ?thesis by simp
  next
    case short: True
    show ?thesis
    proof (cases "?L = []")
      case True
      then have "extend_segment fsub w d ''end'' seg = Some None"
        using less.prems short by (subst extend_segment.simps) simp
      then show ?thesis by simp
    next
      case False
      define t where "t = Min (set (keys ?L))"
      define seg' where "seg' = seg @ [(t, the (map_of w t))]"
      from False have "set (keys ?L) \<noteq> {}" by simp
      then have "t \<in> set (keys ?L)" unfolding t_def by simp
      then have t: "t \<in> set (keys w)" "?mx < t" by (auto simp: keys_def)
      have step: "extend_segment fsub w d ''end'' seg = extend_segment fsub w d ''end'' seg'"
        using less.prems short False
        by (subst extend_segment.simps) (simp add: seg'_def t_def Let_def)
      have ks: "set (keys seg') = insert t (set (keys seg))" by (simp add: seg'_def)
      have "Max (insert t (set (keys seg))) = max t ?mx"
        using ne by (intro Max_insert) simp_all
      also have "\<dots> = t" using t(2) by simp
      finally have mx': "Max (set (keys seg')) = t" by (simp only: ks)
      have "length (filter (\<lambda>p. fst p > t) w) < length ?L"
      proof (rule length_filter_strict)
        show "\<And>x. x \<in> set w \<Longrightarrow> t < fst x \<Longrightarrow> ?mx < fst x" using t(2) by simp
        from t(1) obtain p where "p \<in> set w" "fst p = t" by (auto simp: keys_def)
        with t(2) show "\<exists>x\<in>set w. ?mx < fst x \<and> \<not> t < fst x" by auto
      qed
      then have "length (filter (\<lambda>p. fst p > Max (set (keys seg'))) w) < length ?L"
        by (simp add: mx')
      from less.hyps [OF this] have "\<exists>res. extend_segment fsub w d ''end'' seg' = Some res"
        by (simp add: seg'_def)
      with step show ?thesis by simp
    qed
  qed
qed

lemma extend_segment_empty: "extend_segment fsub w d direction [] = Some None"
  by (subst extend_segment.simps) simp

lemma extend_segment_other_direction:
  assumes ret: "extend_segment fsub w d direction seg = Some res"
    and "direction \<noteq> ''start''" and "direction \<noteq> ''end''"
    and "seg \<noteq> []" and "fsub (Max (set (keys seg))) (Min (set (keys seg))) < d"
  shows False
proof -
  have "direction \<noteq> ''start'' \<longrightarrow> direction \<noteq> ''end'' \<longrightarrow> seg \<noteq> [] \<longrightarrow>
        fsub (Max (set (keys seg))) (Min (set (keys seg))) < d \<longrightarrow> False"
  proof (rule extend_segment.raw_induct
      [where P = "\<lambda>fsub w d direction seg res. direction \<noteq> ''start'' \<longrightarrow>
         direction \<noteq> ''end'' \<longrightarrow> seg \<noteq> [] \<longrightarrow>
         fsub (Max (set (keys seg))) (Min (set (keys seg))) < d \<longrightarrow> False", OF _ ret])
    fix f :: "(real \<Rightarrow> real \<Rightarrow> real) \<Rightarrow> 'a waveform \<Rightarrow> real \<Rightarrow> string \<Rightarrow> 'a waveform
                \<Rightarrow> 'a waveform option option"
    fix fsub :: "real \<Rightarrow> real \<Rightarrow> real" and w :: "'a waveform" and d direction
      and seg :: "'a waveform" and res
    assume IH: "\<And>fsub w d direction seg res. f fsub w d direction seg = Some res \<Longrightarrow>
        direction \<noteq> ''start'' \<longrightarrow> direction \<noteq> ''end'' \<longrightarrow> seg \<noteq> [] \<longrightarrow>
        fsub (Max (set (keys seg))) (Min (set (keys seg))) < d \<longrightarrow> False"
    assume body: "(if seg = [] then Some None
      else if fsub (Max (set (keys seg))) (Min (set (keys seg))) < d then
        (if direction = ''start'' then
           (if filter (\<lambda>p. fst p < Min (set (keys seg))) w = [] then Some None
            else
              let next_earlier_time =
                    Max (set (keys (filter (\<lambda>p. fst p < Min (set (keys seg))) w)))
              in f fsub w d direction
                   (seg @ [(next_earlier_time, the (map_of w next_earlier_time))]))
         else if direction = ''end'' then
           (if filter (\<lambda>p. fst p > Max (set (keys seg))) w = [] then Some None
            else
              let next_later_time =
                    Min (set (keys (filter (\<lambda>p. fst p > Max (set (keys seg))) w)))
              in f fsub w d direction
                   (seg @ [(next_later_time, the (map_of w next_later_time))]))
         else f fsub w d direction seg)
      else Some (Some seg)) = Some res"
    show "direction \<noteq> ''start'' \<longrightarrow> direction \<noteq> ''end'' \<longrightarrow> seg \<noteq> [] \<longrightarrow>
        fsub (Max (set (keys seg))) (Min (set (keys seg))) < d \<longrightarrow> False"
    proof (intro impI)
      assume a: "direction \<noteq> ''start''" "direction \<noteq> ''end''" "seg \<noteq> []"
        "fsub (Max (set (keys seg))) (Min (set (keys seg))) < d"
      with body have "f fsub w d direction seg = Some res" by simp
      from IH [OF this] a show False by simp
    qed
  qed
  with assms show False by simp
qed

lemma extend_segment_diverges:
  assumes "direction \<noteq> ''start''" and "direction \<noteq> ''end''"
    and "seg \<noteq> []" and "fsub (Max (set (keys seg))) (Min (set (keys seg))) < d"
  shows "extend_segment fsub w d direction seg = None"
proof (cases "extend_segment fsub w d direction seg")
  case None
  then show ?thesis .
next
  case (Some res)
  from extend_segment_other_direction [OF this assms] show ?thesis ..
qed

lemma keys_window_subset: "set (keys (window w ts te)) \<subseteq> set (keys w)"
  by (auto simp: window_def keys_def)

text \<open>
  Claim C7, as stated, fails. The waveform has the sample times 0, 1 and 2, the target
  window \<open>[2.5, 2.75]\<close> holds none of them and the minimum duration is 1. The result
  is \<open>None\<close>, although all three points lie in the extension direction, earlier than the
  target start, and the points at 1 and 2 alone span the minimum duration.
\<close>

theorem get_segment_empty_window_counterexample:
  "get_segment_from_waveform real_sub (Some [(0, 1), (1, 1), (2::real, 1::real)])
       2.5 2.75 1 ''start'' = Some None \<and>
   filter (\<lambda>p. fst p < 2.5) [(0, 1), (1, 1), (2::real, 1::real)] = [(0, 1), (1, 1), (2, 1)] \<and>
   (1::real) \<le> real_sub 2 1"
  by (simp add: get_segment_from_waveform_def window_def extend_segment.simps keys_def
        real_sub_def)

text \<open>
  Claim C7, amended. For every waveform, target times and minimum duration, with direction
  \<open>start\<close>, \<open>get_segment_from_waveform\<close> returns, and returns \<open>None\<close> or a segment. A
  segment contains every waveform point with time in \<open>[start_time, end_time]\<close> and
  besides them only waveform points earlier than \<open>start_time\<close>, and its time span, the
  float difference of its latest and its earliest time, is at least \<open>min_duration\<close>. The
  result is \<open>None\<close> exactly when the target window holds no waveform point, or the span
  from the latest point of the window stays below \<open>min_duration\<close> at every sample time
  from the earliest point of the window down (the earlier points run out before the
  duration is met); for a subtraction that is monotone this is the span down to the
  earliest sample time of the waveform.
\<close>

theorem get_segment_start_spec:
  "\<exists>res. get_segment_from_waveform fsub (Some w) ts te d ''start'' = Some res \<and>
     ((res = None) =
        (window w ts te = [] \<or>
         (\<forall>m\<in>set (keys w). m \<le> Min (set (keys (window w ts te))) \<longrightarrow>
              fsub (Max (set (keys (window w ts te)))) m < d))) \<and>
     (sub_mono fsub \<longrightarrow>
        (res = None) =
          (window w ts te = [] \<or>
           fsub (Max (set (keys (window w ts te)))) (Min (set (keys w))) < d)) \<and>
     (\<forall>seg. res = Some seg \<longrightarrow>
        (\<forall>p\<in>set w. ts \<le> fst p \<and> fst p \<le> te \<longrightarrow> p \<in> set seg) \<and>
        (\<forall>p\<in>set seg. p \<in> set w \<and> (ts \<le> fst p \<and> fst p \<le> te \<or> fst p < ts)) \<and>
        seg \<noteq> [] \<and> d \<le> fsub (Max (set (keys seg))) (Min (set (keys seg))))"
proof (cases "window w ts te = []")
  case True
  then show ?thesis by (simp add: get_segment_from_waveform_def extend_segment_empty)
next
  case False
  let ?W = "window w ts te"
  let ?all = "\<forall>m\<in>set (keys w). m \<le> Min (set (keys ?W)) \<longrightarrow> fsub (Max (set (keys ?W))) m < d"
  from extend_segment_start [OF False keys_window_subset, of fsub d]
  obtain res where res: "extend_segment fsub w d ''start'' ?W = Some res"
    "(res = None) = ?all"
    "\<forall>out. res = Some out \<longrightarrow>
        (\<exists>ext. out = ?W @ ext \<and> (\<forall>p\<in>set ext. p \<in> set w \<and> fst p < Min (set (keys ?W)))) \<and>
        \<not> fsub (Max (set (keys out))) (Min (set (keys out))) < d"
    by blast
  have inW: "p \<in> set ?W \<longleftrightarrow> p \<in> set w \<and> ts \<le> fst p \<and> fst p \<le> te" for p
    by (simp add: window_def)
  from False have neW: "set (keys ?W) \<noteq> {}" by simp
  then have mnW: "Min (set (keys ?W)) \<in> set (keys ?W)" by simp
  with keys_window_subset have mnW_w: "Min (set (keys ?W)) \<in> set (keys w)" by blast
  then have new: "set (keys w) \<noteq> {}" by (metis empty_iff)
  have mono: "?all = (fsub (Max (set (keys ?W))) (Min (set (keys w))) < d)"
    if sm: "sub_mono fsub"
  proof
    assume a: ?all
    from new have "Min (set (keys w)) \<in> set (keys w)" by simp
    moreover from mnW_w have "Min (set (keys w)) \<le> Min (set (keys ?W))" by simp
    ultimately show "fsub (Max (set (keys ?W))) (Min (set (keys w))) < d" using a by blast
  next
    assume b: "fsub (Max (set (keys ?W))) (Min (set (keys w))) < d"
    show ?all
    proof (intro ballI impI)
      fix m assume "m \<in> set (keys w)" "m \<le> Min (set (keys ?W))"
      then have "Min (set (keys w)) \<le> m" by simp
      with sm have "fsub (Max (set (keys ?W))) m \<le> fsub (Max (set (keys ?W))) (Min (set (keys w)))"
        unfolding sub_mono_def by blast
      with b show "fsub (Max (set (keys ?W))) m < d" by simp
    qed
  qed
  have early: "fst p < ts" if p: "p \<in> set w" "fst p < Min (set (keys ?W))" for p
  proof (rule ccontr)
    assume n: "\<not> fst p < ts"
    from mnW obtain q where q: "q \<in> set ?W" "fst q = Min (set (keys ?W))"
      by (auto simp: keys_def)
    with inW [of q] p(2) have "fst p \<le> te" by simp
    with n p(1) inW [of p] have "fst p \<in> set (keys ?W)" by (auto simp: keys_def)
    then have "Min (set (keys ?W)) \<le> fst p" by simp
    with p(2) show False by simp
  qed
  have seg: "(\<forall>p\<in>set w. ts \<le> fst p \<and> fst p \<le> te \<longrightarrow> p \<in> set seg) \<and>
        (\<forall>p\<in>set seg. p \<in> set w \<and> (ts \<le> fst p \<and> fst p \<le> te \<or> fst p < ts)) \<and>
        seg \<noteq> [] \<and> d \<le> fsub (Max (set (keys seg))) (Min (set (keys seg)))"
    if s: "res = Some seg" for seg
  proof -
    from res(3) s obtain ext where e: "seg = ?W @ ext"
      "\<forall>p\<in>set ext. p \<in> set w \<and> fst p < Min (set (keys ?W))"
      "\<not> fsub (Max (set (keys seg))) (Min (set (keys seg))) < d" by blast
    from e(1) inW have "\<forall>p\<in>set w. ts \<le> fst p \<and> fst p \<le> te \<longrightarrow> p \<in> set seg" by simp
    moreover have "\<forall>p\<in>set seg. p \<in> set w \<and> (ts \<le> fst p \<and> fst p \<le> te \<or> fst p < ts)"
      using e(1,2) inW early by auto
    moreover from e(1) False have "seg \<noteq> []" by simp
    moreover from e(3) have "d \<le> fsub (Max (set (keys seg))) (Min (set (keys seg)))" by simp
    ultimately show ?thesis by blast
  qed
  from res(1,2) seg False mono show ?thesis
    by (simp add: get_segment_from_waveform_def)
qed

theorem get_segment_start_spec_witness:
  "get_segment_from_waveform real_sub (Some [(0, 1), (1, 1), (2::real, 1::real)])
       0 0.5 1 ''start'' = Some None \<and>
   get_segment_from_waveform real_sub (Some [(0, 1), (1, 1), (2::real, 1::real)])
       1.5 2.75 1 ''start'' = Some (Some [(2, 1), (1, 1)])"
proof -
  let ?w = "[(0, 1), (1, 1), (2::real, 1::real)]"
  have w: "window ?w 0 0.5 = [(0, 1)]" by (simp add: window_def)
  from get_segment_start_spec [of real_sub ?w 0 "0.5" 1, unfolded w]
  obtain res where "get_segment_from_waveform real_sub (Some ?w) 0 0.5 1 ''start'' = Some res"
    "(res = None) = ([(0::real, 1::real)] = [] \<or>
        (\<forall>m\<in>set (keys ?w). m \<le> Min (set (keys [(0::real, 1::real)])) \<longrightarrow>
             real_sub (Max (set (keys [(0::real, 1::real)]))) m < 1))"
    by blast
  then have a: "get_segment_from_waveform real_sub (Some ?w) 0 0.5 1 ''start'' = Some None"
    by (simp add: keys_def real_sub_def)
  have b: "get_segment_from_waveform real_sub (Some ?w) 1.5 2.75 1 ''start''
             = Some (Some [(2, 1), (1, 1)])"
    by (simp add: get_segment_from_waveform_def window_def extend_segment.simps keys_def
          real_sub_def)
  from a b show ?thesis by simp
qed

text \<open>
  Claim C10. With direction \<open>start\<close> or \<open>end\<close>, \<open>get_segment_from_waveform\<close> returns
  for every waveform (absent or not), target window and minimum duration. With any other
  direction the loop body adds no point: when the target window holds a waveform point
  and its span, as the loop test computes it, is below the minimum duration, the function
  does not return; and such an input exists for every other direction (one point, and a
  minimum duration above the computed span of a single point).
\<close>

theorem get_segment_terminates_iff_direction:
  "(direction = ''start'' \<or> direction = ''end'' \<longrightarrow>
      (\<exists>res. get_segment_from_waveform fsub wo ts te d direction = Some res)) \<and>
   (direction \<noteq> ''start'' \<and> direction \<noteq> ''end'' \<and> window w ts te \<noteq> [] \<and>
      fsub (Max (set (keys (window w ts te)))) (Min (set (keys (window w ts te)))) < d \<longrightarrow>
      get_segment_from_waveform fsub (Some w) ts te d direction = None) \<and>
   (direction \<noteq> ''start'' \<and> direction \<noteq> ''end'' \<longrightarrow>
      get_segment_from_waveform fsub (Some [(0, v)]) 0 0 (fsub 0 0 + 1) direction = None)"
proof -
  have ret: "\<exists>res. get_segment_from_waveform fsub wo ts te d direction = Some res"
    if dir: "direction = ''start'' \<or> direction = ''end''"
  proof (cases wo)
    case None
    then show ?thesis by (simp add: get_segment_from_waveform_def)
  next
    case (Some u)
    show ?thesis
    proof (cases "window u ts te = []")
      case True
      with Some show ?thesis by (simp add: get_segment_from_waveform_def extend_segment_empty)
    next
      case False
      from dir show ?thesis
      proof
        assume "direction = ''start''"
        with extend_segment_start [OF False keys_window_subset, of fsub d] Some
        show ?thesis by (auto simp: get_segment_from_waveform_def)
      next
        assume "direction = ''end''"
        with extend_segment_end_returns [OF False, of fsub u d] Some
        show ?thesis by (auto simp: get_segment_from_waveform_def)
      qed
    qed
  qed
  have div: "get_segment_from_waveform fsub (Some w) ts te d direction = None"
    if "direction \<noteq> ''start'' \<and> direction \<noteq> ''end'' \<and> window w ts te \<noteq> [] \<and>
      fsub (Max (set (keys (window w ts te)))) (Min (set (keys (window w ts te)))) < d"
    using that by (simp add: get_segment_from_waveform_def extend_segment_diverges)
  have ex: "get_segment_from_waveform fsub (Some [(0, v)]) 0 0 (fsub 0 0 + 1) direction = None"
    if "direction \<noteq> ''start'' \<and> direction \<noteq> ''end''"
    using that
    by (simp add: get_segment_from_waveform_def window_def extend_segment_diverges)
  from ret div ex show ?thesis by blast
qed

theorem get_segment_terminates_iff_direction_witness:
  "get_segment_from_waveform real_sub (Some [(0, 0), (1::real, 0::real)]) 0 1 3 ''sideways''
     = None \<and>
   get_segment_from_waveform real_sub (Some [(0, 0), (1::real, 0::real)]) 0 1 3 ''start''
     = Some None \<and>
   get_segment_from_waveform real_sub (Some [(0, 0), (1::real, 0::real)]) 0 1 3 ''end''
     = Some None"
proof -
  let ?w = "[(0, 0), (1::real, 0::real)]"
  have w: "window ?w 0 1 = ?w" by (simp add: window_def)
  have a: "get_segment_from_waveform real_sub (Some ?w) 0 1 3 ''sideways'' = None"
    using get_segment_terminates_iff_direction
            [where direction = "''sideways''" and fsub = real_sub and wo = None and ts = 0
               and te = 1 and d = 3 and w = ?w and v = "0::real"]
    by (simp add: w keys_def real_sub_def)
  have b: "get_segment_from_waveform real_sub (Some ?w) 0 1 3 ''start'' = Some None"
    by (simp add: get_segment_from_waveform_def window_def extend_segment.simps keys_def
          real_sub_def)
  have c: "get_segment_from_waveform real_sub (Some ?w) 0 1 3 ''end'' = Some None"
    by (simp add: get_segment_from_waveform_def window_def extend_segment.simps keys_def
          real_sub_def)
  from a b c show ?thesis by simp
qed

section \<open>Window search\<close>



lemma those_map_const:
  "\<forall>x\<in>set xs. f x = Some c \<Longrightarrow> those (map f xs) = Some (map (\<lambda>_. c) xs)"
  by (induction xs) simp_all

lemma passing_regions_failed: "passing_regions (map (\<lambda>_. Inl e) xs) = []"
  by (cases xs) (simp_all add: passing_regions_def)

lemma merge_regions_Nil: "merge_regions [] = []"
  by (simp add: merge_regions_def merge_loop.simps)

text \<open>
  On a waveform whose computed span is below the minimum duration no window has a
  segment: a segment consists of waveform points, so its computed span is at most the
  waveform's.
\<close>

lemma analyze_segment_short_span:
  assumes sm: "sub_mono fsub" and ne: "w \<noteq> []"
    and short: "fsub (Max (set (keys w))) (Min (set (keys w))) < mwd"
  shows "analyze_segment ops fsub mt (Some w) ts te mwd env interp sv
           = Some (Inl AttributeError)"
proof (cases "window w ts te = []")
  case True
  then show ?thesis
    by (simp add: analyze_segment_def get_segment_from_waveform_def extend_segment_empty)
next
  case False
  let ?W = "window w ts te"
  from extend_segment_start [OF False keys_window_subset, of fsub mwd]
  obtain res where res: "extend_segment fsub w mwd ''start'' ?W = Some res"
    "\<forall>out. res = Some out \<longrightarrow>
        (\<exists>ext. out = ?W @ ext \<and> (\<forall>p\<in>set ext. p \<in> set w \<and> fst p < Min (set (keys ?W)))) \<and>
        \<not> fsub (Max (set (keys out))) (Min (set (keys out))) < mwd"
    by blast
  have "res = None"
  proof (cases res)
    case None
    then show ?thesis .
  next
    case (Some out)
    with res(2) obtain ext where e: "out = ?W @ ext" "\<forall>p\<in>set ext. p \<in> set w"
      "\<not> fsub (Max (set (keys out))) (Min (set (keys out))) < mwd" by blast
    have sub: "set (keys out) \<subseteq> set (keys w)"
      using e(1,2) keys_window_subset [of w ts te] by (auto simp: keys_def)
    from e(1) False have "set (keys out) \<noteq> {}" by simp
    then have "Max (set (keys out)) \<in> set (keys out)" "Min (set (keys out)) \<in> set (keys out)"
      by simp_all
    with sub have "Max (set (keys out)) \<in> set (keys w)" "Min (set (keys out)) \<in> set (keys w)"
      by blast+
    then have "Max (set (keys out)) \<le> Max (set (keys w))"
      "Min (set (keys w)) \<le> Min (set (keys out))" by simp_all
    with sm have "fsub (Max (set (keys out))) (Min (set (keys out)))
                    \<le> fsub (Max (set (keys w))) (Min (set (keys w)))"
      unfolding sub_mono_def by blast
    with short e(3) show ?thesis by simp
  qed
  with res(1) show ?thesis
    by (simp add: analyze_segment_def get_segment_from_waveform_def)
qed

lemma analyze_waveform_short_span:
  assumes "sub_mono fsub" and "w \<noteq> []"
    and "fsub (Max (set (keys w))) (Min (set (keys w))) < mwd" and "1 \<le> processes"
  shows "analyze_waveform ops fsub mt w env start_time mwd processes interp sv
           = Some (Inr [])"
proof -
  have "\<forall>p\<in>set (target_times fsub w start_time mwd).
          analyze_segment ops fsub mt (Some w) (fst p) (snd p) mwd env interp sv
            = Some (Inl AttributeError)"
    using analyze_segment_short_span [OF assms(1-3)] by blast
  from those_map_const [OF this] assms(2,4) show ?thesis
    by (simp add: analyze_waveform_def passing_regions_failed)
qed

lemma target_times_no_candidate:
  assumes "\<forall>t\<in>set (keys w). fsub t mwd < floor_time w start_time"
  shows "target_times fsub w start_time mwd = []"
  using assms by (auto simp: target_times_def filter_empty_conv)

lemma analyze_waveform_no_candidate:
  assumes "start_time = None \<longrightarrow> w \<noteq> []"
    and "\<forall>t\<in>set (keys w). fsub t mwd < floor_time w start_time" and "1 \<le> processes"
  shows "analyze_waveform ops fsub mt w env start_time mwd processes interp sv
           = Some (Inr [])"
  using assms target_times_no_candidate [of w fsub mwd start_time]
  by (auto simp: analyze_waveform_def passing_regions_def)

text \<open>
  Claim C8, as stated, fails. The waveform below has the sample times 0 and 1, a span
  below the minimum window duration 3. Called with \<open>num_cores = 0\<close> the search asks
  \<open>multiprocessing.Pool\<close> for no process, and the pool raises \<open>ValueError\<close>: the
  result is an error, not the empty list. Nor does a short span leave no window to
  evaluate: with the sample times 1 and 2 and a start time of -5 both sample times are
  candidate end times.
\<close>

theorem insufficient_span_error_counterexample:
  "short_span real_sub (Some [(0, 0), (1::real, 0::real)]) 3 \<and>
   find_time_regions_below_letgo real_arith real_sub (Some [(0, 0), (1, 0)]) None None None 3
     (IntCores 0) (Some 8) DEFAULT_INTERPRETATION DEFAULT_STANDARD_VERSION
     = Some (Inl InvalidPoolSize) \<and>
   short_span real_sub (Some [(1, 0), (2::real, 0::real)]) 3 \<and>
   target_times real_sub [(1, 0), (2::real, 0::real)] (Some (-5)) 3 = [(-2, 1), (-1, 2)]"
  by (simp add: short_span_def keys_def real_sub_def find_time_regions_below_letgo_def
        num_processes_def analyze_waveform_def target_times_def floor_time_def)

text \<open>
  Claim C8, amended. Let the worker count be one with which the pool can be created
  (\<open>num_cores\<close> omitted or an \<open>int\<close>, at least one process, a known CPU count). When
  every supplied waveform is non-empty and its span, the float difference of its latest
  and its earliest sample time, is below the minimum window duration,
  \<open>find_time_regions_below_letgo\<close> returns the empty list of regions and raises no
  error, whatever the start time is: every window that is evaluated has too little data
  and fails inside its worker. The subtraction is assumed monotone. When no sample time of
  the supplied waveforms is a candidate end time, no window is evaluated and the result is
  the empty list as well.
\<close>

theorem insufficient_span_no_regions:
  assumes "pool_can_be_created num_cores cpu_count"
  shows "(sub_mono fsub \<and> short_span fsub current_waveform mwd \<and>
          short_span fsub voltage_waveform mwd \<longrightarrow>
            find_time_regions_below_letgo ops fsub current_waveform voltage_waveform env
              start_time mwd num_cores cpu_count interp sv = Some (Inr []) \<and>
            (\<forall>w. current_waveform = Some w \<or> voltage_waveform = Some w \<longrightarrow>
               (\<forall>p\<in>set (target_times fsub w start_time mwd).
                  analyze_segment ops fsub mt (Some w) (fst p) (snd p) mwd env interp sv
                    = Some (Inl AttributeError)))) \<and>
         (no_candidate fsub current_waveform start_time mwd \<and>
          no_candidate fsub voltage_waveform start_time mwd \<longrightarrow>
            find_time_regions_below_letgo ops fsub current_waveform voltage_waveform env
              start_time mwd num_cores cpu_count interp sv = Some (Inr []) \<and>
            (\<forall>w. current_waveform = Some w \<or> voltage_waveform = Some w \<longrightarrow>
               target_times fsub w start_time mwd = []))"
proof -
  from assms obtain n where n: "num_processes num_cores cpu_count = Inr n" "1 \<le> n"
    by (auto simp: pool_can_be_created_def split: sum.splits)
  have a: "find_time_regions_below_letgo ops fsub current_waveform voltage_waveform env
              start_time mwd num_cores cpu_count interp sv = Some (Inr []) \<and>
            (\<forall>w. current_waveform = Some w \<or> voltage_waveform = Some w \<longrightarrow>
               (\<forall>p\<in>set (target_times fsub w start_time mwd).
                  analyze_segment ops fsub mt (Some w) (fst p) (snd p) mwd env interp sv
                    = Some (Inl AttributeError)))"
    if h: "sub_mono fsub" "short_span fsub current_waveform mwd"
          "short_span fsub voltage_waveform mwd"
  proof -
    have "find_time_regions_below_letgo ops fsub current_waveform voltage_waveform env
              start_time mwd num_cores cpu_count interp sv = Some (Inr [])"
      using h n
      by (cases current_waveform; cases voltage_waveform)
         (simp_all add: find_time_regions_below_letgo_def short_span_def
            analyze_waveform_short_span merge_regions_Nil)
    moreover have "\<forall>p\<in>set (target_times fsub w start_time mwd).
                  analyze_segment ops fsub mt (Some w) (fst p) (snd p) mwd env interp sv
                    = Some (Inl AttributeError)"
      if "current_waveform = Some w \<or> voltage_waveform = Some w" for w
    proof -
      from that h(2,3) have "w \<noteq> []"
        "fsub (Max (set (keys w))) (Min (set (keys w))) < mwd"
        by (auto simp: short_span_def)
      from analyze_segment_short_span [OF h(1) this] show ?thesis by blast
    qed
    ultimately show ?thesis by blast
  qed
  have b: "find_time_regions_below_letgo ops fsub current_waveform voltage_waveform env
              start_time mwd num_cores cpu_count interp sv = Some (Inr []) \<and>
            (\<forall>w. current_waveform = Some w \<or> voltage_waveform = Some w \<longrightarrow>
               target_times fsub w start_time mwd = [])"
    if h: "no_candidate fsub current_waveform start_time mwd"
          "no_candidate fsub voltage_waveform start_time mwd"
  proof -
    have "find_time_regions_below_letgo ops fsub current_waveform voltage_waveform env
              start_time mwd num_cores cpu_count interp sv = Some (Inr [])"
      using h n
      by (cases current_waveform; cases voltage_waveform)
         (simp_all add: find_time_regions_below_letgo_def no_candidate_def
            analyze_waveform_no_candidate merge_regions_Nil)
    moreover have "target_times fsub w start_time mwd = []"
      if "current_waveform = Some w \<or> voltage_waveform = Some w" for w
      using that h target_times_no_candidate [of w fsub mwd start_time]
      by (auto simp: no_candidate_def)
    ultimately show ?thesis by blast
  qed
  from a b show ?thesis by blast
qed

theorem insufficient_span_no_regions_witness:
  "find_time_regions_below_letgo real_arith real_sub (Some [(0, 0), (1, 0)]) None None None 3
     NoCores (Some 8) STRICT UL1400_1_ISSUE_1 = Some (Inr []) \<and>
   target_times real_sub [(1, 0), (2::real, 0::real)] (Some (-5)) 3 = [(-2, 1), (-1, 2)] \<and>
   find_time_regions_below_letgo real_arith real_sub None (Some [(1, 0), (2, 0)])
     (Some ''dry'') (Some (-5)) 3 (IntCores 2) (Some 8) STRICT UL1400_1_ISSUE_1
     = Some (Inr []) \<and>
   find_time_regions_below_letgo real_arith real_sub (Some [(0, 0), (10, 0)]) None None
     (Some 8) 3 NoCores (Some 8) STRICT UL1400_1_ISSUE_1 = Some (Inr [])"
proof -
  have pool: "pool_can_be_created NoCores (Some 8)" "pool_can_be_created (IntCores 2) (Some 8)"
    by (simp_all add: pool_can_be_created_def num_processes_def)
  have n: "short_span real_sub (None :: real waveform option) 3"
    "no_candidate real_sub (None :: real waveform option) (Some 8) 3"
    by (simp_all add: short_span_def no_candidate_def)
  have s: "short_span real_sub (Some [(0, 0), (1::real, 0::real)]) 3"
    "short_span real_sub (Some [(1, 0), (2::real, 0::real)]) 3"
    by (simp_all add: short_span_def keys_def real_sub_def)
  have c: "no_candidate real_sub (Some [(0, 0), (10::real, 0::real)]) (Some 8) 3"
    by (simp add: no_candidate_def keys_def real_sub_def floor_time_def)
  have t: "target_times real_sub [(1, 0), (2::real, 0::real)] (Some (-5)) 3
             = [(-2, 1), (-1, 2)]"
    by (simp add: target_times_def keys_def real_sub_def floor_time_def)
  have a: "find_time_regions_below_letgo real_arith real_sub (Some [(0, 0), (1, 0)]) None
     None None 3 NoCores (Some 8) STRICT UL1400_1_ISSUE_1 = Some (Inr [])"
    using insufficient_span_no_regions [OF pool(1), of real_sub "Some [(0, 0), (1, 0)]" 3
            None real_arith None None STRICT UL1400_1_ISSUE_1]
      real_sub_mono s(1) n(1)
    by blast
  have b: "find_time_regions_below_letgo real_arith real_sub None (Some [(1, 0), (2, 0)])
     (Some ''dry'') (Some (-5)) 3 (IntCores 2) (Some 8) STRICT UL1400_1_ISSUE_1
     = Some (Inr [])"
    using insufficient_span_no_regions [OF pool(2), of real_sub None 3
            "Some [(1, 0), (2, 0)]" real_arith "Some ''dry''" "Some (-5)" STRICT
            UL1400_1_ISSUE_1]
      real_sub_mono s(2) n(1)
    by blast
  have d: "find_time_regions_below_letgo real_arith real_sub (Some [(0, 0), (10, 0)]) None
     None (Some 8) 3 NoCores (Some 8) STRICT UL1400_1_ISSUE_1 = Some (Inr [])"
    using insufficient_span_no_regions [OF pool(1), of real_sub "Some [(0, 0), (10, 0)]" 3
            None real_arith None "Some 8" STRICT UL1400_1_ISSUE_1]
      c n(2)
    by blast
  from a t b d show ?thesis by simp
qed




end
